theory Spec2Isabelle
  imports Complex_Main "HOL-Library.Sublist" "HOL-Library.AList"
begin

section \<open>The WordPress REST client of \<open>src/client/api.ts\<close>\<close>

text \<open>
  The class \<open>WordPressClient\<close> is embedded with explicit state passing.  The client's
  fields are a record; everything outside the class that the methods touch (the clock read
  by \<open>Date.now()\<close>, the answers of \<open>fetch\<close>, the effects the pipeline has on the outside)
  is a second record, the world.  Platform functions that are not code of the repository
  (\<open>JSON.parse\<close>, \<open>JSON.stringify\<close> of a string, \<open>new URL\<close>, base64 encoding, the user agent
  string) are fields of an environment record and every theorem holds for all of them.

  JavaScript strings are modelled as \<open>string\<close>, read as UTF-8 bytes; numbers that count or
  measure milliseconds are integers, the running average is a real number.
\<close>

subsection \<open>Strings\<close>

definition str_includes :: "string \<Rightarrow> string \<Rightarrow> bool" where
  \<comment> \<open>\<open>s.includes(t)\<close>\<close>
  "str_includes s t = sublist t s"

definition startsWith :: "string \<Rightarrow> string \<Rightarrow> bool" where
  "startsWith s t = prefix t s"

definition lower_char :: "char \<Rightarrow> char" where
  "lower_char c =
     (case map_of (zip ''ABCDEFGHIJKLMNOPQRSTUVWXYZ'' ''abcdefghijklmnopqrstuvwxyz'') c of
        Some d \<Rightarrow> d
      | None \<Rightarrow> c)"

definition toLowerCase :: "string \<Rightarrow> string" where
  \<comment> \<open>\<open>s.toLowerCase()\<close>, on the ASCII letters; other bytes are left as they are\<close>
  "toLowerCase s = map lower_char s"

fun replace_first :: "string \<Rightarrow> string \<Rightarrow> string \<Rightarrow> string" where
  \<comment> \<open>\<open>s.replace(pat, rep)\<close> with a string pattern: the first occurrence only\<close>
  "replace_first [] pat rep = (if pat = [] then rep else [])"
| "replace_first (c # cs) pat rep =
     (if prefix pat (c # cs) then rep @ drop (length pat) (c # cs)
      else c # replace_first cs pat rep)"

definition strip_trailing_slash :: "string \<Rightarrow> string" where
  \<comment> \<open>\<open>s.replace(/\\/$/, "")\<close>\<close>
  "strip_trailing_slash s = (if s \<noteq> [] \<and> last s = CHR ''/'' then butlast s else s)"

definition strip_leading_slashes :: "string \<Rightarrow> string" where
  \<comment> \<open>\<open>s.replace(/^\\/+/, "")\<close>\<close>
  "strip_leading_slashes s = dropWhile (\<lambda>c. c = CHR ''/'') s"

definition digit_char :: "nat \<Rightarrow> char" where
  "digit_char d = ''0123456789'' ! (d mod 10)"

function show_nat :: "nat \<Rightarrow> string" where
  "show_nat n = (if n < 10 then [digit_char n] else show_nat (n div 10) @ [digit_char n])"
  by pat_completeness auto
termination
  by (relation "measure id") auto

declare show_nat.simps [simp del]

definition show_int :: "int \<Rightarrow> string" where
  "show_int i = (if i < 0 then CHR ''-'' # show_nat (nat (- i)) else show_nat (nat i))"

subsection \<open>JSON values\<close>

datatype json =
    JNull
  | JBool bool
  | JNum int
  | JStr string
  | JArr "json list"
  | JObj "(string \<times> json) list"

fun truthy :: "json \<Rightarrow> bool" where
  "truthy JNull = False"
| "truthy (JBool b) = b"
| "truthy (JNum n) = (n \<noteq> 0)"
| "truthy (JStr s) = (s \<noteq> [])"
| "truthy (JArr xs) = True"
| "truthy (JObj kvs) = True"

fun join_comma :: "string list \<Rightarrow> string" where
  "join_comma [] = []"
| "join_comma [s] = s"
| "join_comma (s # t # ss) = s @ '','' @ join_comma (t # ss)"

fun to_str :: "json \<Rightarrow> string" where
  \<comment> \<open>the string a value becomes in a template literal or as an error message\<close>
  "to_str JNull = ''null''"
| "to_str (JBool b) = (if b then ''true'' else ''false'')"
| "to_str (JNum n) = show_int n"
| "to_str (JStr s) = s"
| "to_str (JArr xs) = join_comma (map (\<lambda>x. if x = JNull then [] else to_str x) xs)"
| "to_str (JObj kvs) = ''[object Object]''"

subsection \<open>Errors\<close>

text \<open>
  The error classes \<open>WordPressAPIError\<close>, \<open>AuthenticationError\<close> and \<open>RateLimitError\<close> are
  declared in \<open>types/client.ts\<close>, which is not among the sources; they are taken with the
  arguments the client passes to their constructors, and with their class name as
  \<open>error.name\<close>.  \<open>PlainError name message\<close> is any other \<open>Error\<close> object.
\<close>

datatype js_error =
    PlainError string string
  | WordPressAPIError string "nat option"
  | AuthenticationError string "string option"
  | RateLimitError string int

fun error_name :: "js_error \<Rightarrow> string" where
  "error_name (PlainError n m) = n"
| "error_name (WordPressAPIError m s) = ''WordPressAPIError''"
| "error_name (AuthenticationError m a) = ''AuthenticationError''"
| "error_name (RateLimitError m r) = ''RateLimitError''"

fun error_message :: "js_error \<Rightarrow> string" where
  "error_message (PlainError n m) = m"
| "error_message (WordPressAPIError m s) = m"
| "error_message (AuthenticationError m a) = m"
| "error_message (RateLimitError m r) = m"

fun is_RateLimitError :: "js_error \<Rightarrow> bool" where
  "is_RateLimitError (RateLimitError m r) = True"
| "is_RateLimitError e = False"

text \<open>What a \<open>throw\<close> or a rejected promise carries: an \<open>Error\<close> object or any other value.\<close>

datatype thrown =
    Err js_error
  | ThrownString string
  | ThrownOther

subsection \<open>Requests, responses and the world\<close>

text \<open>
  The \<open>data\<close> argument of \<open>request\<close> has type \<open>unknown\<close>.  \<open>DNull\<close> is \<open>null\<close> or
  \<open>undefined\<close> (the default); \<open>DOther\<close> is any truthy value that is neither a string nor a
  \<open>Buffer\<close>, described by what the client asks of it: whether it is an instance of the
  \<open>form-data\<close> package's \<open>FormData\<close>, whether it has an \<open>append\<close> function, what its
  \<open>getHeaders()\<close> returns when it has one, whether it has a \<open>pipe\<close> function, and what
  \<open>JSON.stringify\<close> makes of it (a \<open>TypeError\<close> for a cyclic object or a \<open>BigInt\<close>; the
  values for which it returns \<open>undefined\<close> are left out).
\<close>

record js_object =
  instanceof_FormData :: bool
  append_is_function :: bool
  getHeaders :: "(string \<times> string) list option"
  pipe_is_function :: bool
  stringify :: "thrown + string"

datatype js_data =
    DNull
  | DString string
  | DBuffer "nat list"
  | DOther js_object

record FetchOptions =
  http_method :: string
  headers :: "(string \<times> string) list"
  body :: "js_data option"

record Response =
  status :: nat
  statusText :: string
  body_text :: "thrown + string"

definition ok :: "Response \<Rightarrow> bool" where
  "ok r = (200 \<le> status r \<and> status r \<le> 299)"

datatype fetch_outcome = Rejects thrown | Resolves Response

record exchange =
  outcome :: fetch_outcome
  elapsed :: nat

datatype delay_reason = RateLimit | Backoff

datatype event =
    Attempt nat
  | Delay delay_reason int
  | Fetch string FetchOptions

record world =
  now :: int
  served :: nat
  trace :: "event list"

text \<open>
  The parts of a parsed \<open>URL\<close> object that the client reads; \<open>searchParams\<close> is
  \<open>searchParams.toString()\<close>.  What \<open>fetch\<close> answers is not decided by the client: the \<open>n\<close>-th
  call of \<open>fetch\<close> in the life of a world gets the exchange \<open>net n\<close>, which is any rejection or
  any response, with the time it took.  A response body is what \<open>response.text()\<close> gives, a
  text or a rejection.  The trace lists what the client does: the entry of each loop iteration,
  each delay with its reason, and each fetch with its URL and options.
\<close>

record url =
  protocol :: string
  hostname :: string
  host :: string
  pathname :: string
  origin :: string
  searchParams :: string

record env =
  net :: "nat \<Rightarrow> exchange"
  json_parse :: "string \<Rightarrow> string + json"
  url_parse :: "string \<Rightarrow> url option"
  json_quote :: "string \<Rightarrow> string"
  base64 :: "string \<Rightarrow> string"
  user_agent :: string

definition fetch :: "env \<Rightarrow> world \<Rightarrow> string \<Rightarrow> FetchOptions \<Rightarrow> fetch_outcome \<times> world" where
  \<comment> \<open>the next answer of the network; the clock moves by the time the exchange took\<close>
  "fetch e w u fo =
     (let x = net e (served w)
      in (outcome x,
          w\<lparr>now := now w + int (elapsed x), served := Suc (served w),
            trace := trace w @ [Fetch u fo]\<rparr>))"

definition delay :: "delay_reason \<Rightarrow> int \<Rightarrow> world \<Rightarrow> world" where
  "delay why ms w = w\<lparr>now := now w + max 0 ms, trace := trace w @ [Delay why ms]\<rparr>"

subsection \<open>The client\<close>

record AuthConfig =
  auth_method :: "string option"
  username :: "string option"
  appPassword :: "string option"
  password :: "string option"
  secret :: "string option"
  apiKey :: "string option"
  nonce :: "string option"

record ClientStats =
  totalRequests :: nat
  successfulRequests :: nat
  failedRequests :: nat
  averageResponseTime :: real
  rateLimitHits :: nat
  authFailures :: nat
  errors :: nat
  stats_lastRequestTime :: "int option"

record WordPressClient =
  baseUrl :: string
  apiUrl :: string
  timeout :: nat
  maxRetries :: int
  auth :: AuthConfig
  lastRequestTime :: int
  requestInterval :: int
  authenticated :: bool
  jwtToken :: "json option"
  stats :: ClientStats

text \<open>The options of \<open>request\<close> that the client reads.  \<open>RequestOptions\<close> is declared in
  \<open>types/client.ts\<close>, which is not among the sources; any other field is handed to \<open>fetch\<close>
  as it is.\<close>

record RequestOptions =
  opt_headers :: "(string \<times> string) list option"
  retries :: "int option"
  opt_timeout :: "nat option"

definition present :: "string option \<Rightarrow> bool" where
  \<comment> \<open>truthiness of an optional string field\<close>
  "present x = (case x of None \<Rightarrow> False | Some s \<Rightarrow> s \<noteq> [])"


definition str_of :: "string option \<Rightarrow> string" where
  "str_of x = (case x of None \<Rightarrow> [] | Some s \<Rightarrow> s)"

definition assign :: "(string \<times> string) list \<Rightarrow> (string \<times> string) list \<Rightarrow> (string \<times> string) list" where
  \<comment> \<open>\<open>Object.assign(hs, extra)\<close>, also the object spread \<open>{...hs, ...extra}\<close>\<close>
  "assign hs extra = fold (\<lambda>(k, v). AList.update k v) extra hs"

text \<open>\<open>addAuthHeaders\<close> (lines 364 to 399), \<open>rateLimit\<close> (404 to 414) and \<open>delay\<close> (419 to 421)
  of \<open>api.ts\<close>.\<close>

definition addAuthHeaders :: "env \<Rightarrow> WordPressClient \<Rightarrow> (string \<times> string) list \<Rightarrow> (string \<times> string) list" where
  "addAuthHeaders e c hs =
     (let a = auth c; m = map_option toLowerCase (auth_method a)
      in if m = Some ''app-password'' then
           (if present (username a) \<and> present (appPassword a)
            then AList.update ''Authorization''
                   (''Basic '' @ base64 e (str_of (username a) @ '':'' @ str_of (appPassword a))) hs
            else hs)
         else if m = Some ''basic'' then
           (if present (username a) \<and> present (password a)
            then AList.update ''Authorization''
                   (''Basic '' @ base64 e (str_of (username a) @ '':'' @ str_of (password a))) hs
            else hs)
         else if m = Some ''jwt'' then
           (case jwtToken c of
              Some t \<Rightarrow> if truthy t then AList.update ''Authorization'' (''Bearer '' @ to_str t) hs else hs
            | None \<Rightarrow> hs)
         else if m = Some ''api-key'' then
           (if present (apiKey a) then AList.update ''X-API-Key'' (str_of (apiKey a)) hs else hs)
         else if m = Some ''cookie'' then
           (if present (nonce a) then AList.update ''X-WP-Nonce'' (str_of (nonce a)) hs else hs)
         else hs)"

definition rateLimit :: "WordPressClient \<Rightarrow> world \<Rightarrow> WordPressClient \<times> world" where
  "rateLimit c w =
     (let timeSinceLastRequest = now w - lastRequestTime c;
          w' = (if timeSinceLastRequest < requestInterval c
                then delay RateLimit (requestInterval c - timeSinceLastRequest) w
                else w)
      in (c\<lparr>lastRequestTime := now w'\<rparr>, w'))"

subsection \<open>The request pipeline\<close>

text \<open>
  The methods of lines 528 to 850 of \<open>api.ts\<close>, each under its own name.  \<open>request\<close> is cut
  in four: \<open>request_ctx\<close> computes its constants, \<open>attempt_once\<close> is the body of its loop
  (with \<open>attempt_try\<close> the \<open>try\<close> block and \<open>attempt_catch\<close> the \<open>catch\<close> block),
  \<open>request_loop\<close> is the loop and \<open>request_failed\<close> the statements after it.  A method that
  can throw returns a sum, \<open>Inl\<close> the thrown value; a method that changes the statistics or
  calls \<open>fetch\<close> returns the new client and world.
\<close>

fun data_truthy :: "js_data \<Rightarrow> bool" where
  "data_truthy DNull = False"
| "data_truthy (DString s) = (s \<noteq> [])"
| "data_truthy (DBuffer b) = True"
| "data_truthy (DOther ob) = True"

fun isRetryableBody :: "js_data \<Rightarrow> bool" where
  "isRetryableBody DNull = True"
| "isRetryableBody (DString s) = True"
| "isRetryableBody (DBuffer b) = True"
| "isRetryableBody (DOther ob) =
     (if instanceof_FormData ob then False
      else if pipe_is_function ob then False
      else True)"

fun attachRequestBody :: "FetchOptions \<Rightarrow> js_data \<Rightarrow> thrown + FetchOptions" where
  "attachRequestBody fo (DOther ob) =
     (if instanceof_FormData ob \<or> append_is_function ob then
        Inr (fo\<lparr>headers := (case getHeaders ob of
                               Some formHeaders \<Rightarrow> assign (headers fo) formHeaders
                             | None \<Rightarrow> AList.delete ''Content-Type'' (headers fo)),
                body := Some (DOther ob)\<rparr>)
      else (case stringify ob of
              Inl t \<Rightarrow> Inl t
            | Inr s \<Rightarrow> Inr (fo\<lparr>body := Some (DString s)\<rparr>)))"
| "attachRequestBody fo (DBuffer b) = Inr (fo\<lparr>body := Some (DBuffer b)\<rparr>)"
| "attachRequestBody fo (DString s) = Inr (fo\<lparr>body := Some (DString s)\<rparr>)"
| "attachRequestBody fo DNull = Inr (fo\<lparr>body := Some (DString ''null'')\<rparr>)"

definition normalizeRequestError :: "thrown \<Rightarrow> nat \<Rightarrow> js_error" where
  "normalizeRequestError t tmo =
     (case t of
        Err err \<Rightarrow>
          if error_name err = ''AbortError''
          then PlainError ''Error'' (''Request timeout after '' @ show_nat tmo @ ''ms'')
          else if str_includes (error_message err) ''socket hang up''
                  \<or> str_includes (error_message err) ''ECONNRESET''
          then PlainError ''Error'' (''Network connection lost during request: '' @ error_message err)
          else err
      | ThrownString s \<Rightarrow> PlainError ''Error'' s
      | ThrownOther \<Rightarrow> PlainError ''Error'' ''Unknown error'')"

definition shouldRetryError :: "js_error \<Rightarrow> bool" where
  "shouldRetryError err =
     (let message = toLowerCase (error_message err)
      in if str_includes message ''401'' \<or> str_includes message ''403'' then False
         else if str_includes message ''timeout'' then False
         else if str_includes message ''network connection lost'' then False
         else True)"

definition updateAverageResponseTime :: "WordPressClient \<Rightarrow> world \<Rightarrow> int \<Rightarrow> WordPressClient" where
  "updateAverageResponseTime c w duration =
     (let totalSuccessful = successfulRequests (stats c)
      in c\<lparr>stats := (stats c)
            \<lparr>averageResponseTime :=
               (averageResponseTime (stats c) * (real totalSuccessful - 1) + real_of_int duration)
                 / real totalSuccessful,
             stats_lastRequestTime := Some (now w)\<rparr>\<rparr>)"

text \<open>
  \<open>startTimer()\<close> is imported from \<open>utils/debug.ts\<close>, which is not among the sources; the
  timer is modelled by the clock value at which it was started, and \<open>timer.end()\<close> returns
  the milliseconds elapsed since then.
\<close>

definition timer_end :: "int \<Rightarrow> world \<Rightarrow> int" where
  "timer_end timer w = now w - timer"

definition count_success :: "WordPressClient \<Rightarrow> world \<Rightarrow> int \<Rightarrow> WordPressClient" where
  \<comment> \<open>\<open>this._stats.successfulRequests++; const duration = timer.end();
      this.updateAverageResponseTime(duration)\<close>\<close>
  "count_success c w timer =
     updateAverageResponseTime
       (c\<lparr>stats := (stats c)\<lparr>successfulRequests := successfulRequests (stats c) + 1\<rparr>\<rparr>)
       w (timer_end timer w)"

definition parseResponse ::
  "env \<Rightarrow> WordPressClient \<Rightarrow> world \<Rightarrow> Response \<Rightarrow> string \<Rightarrow> int \<Rightarrow> (thrown + json) \<times> WordPressClient" where
  "parseResponse e c w response endpoint timer =
     (case body_text response of
        Inl t \<Rightarrow> (Inl t, c)
      | Inr responseText \<Rightarrow>
          if responseText = [] then (Inr JNull, count_success c w timer)
          else (case json_parse e responseText of
                  Inr result \<Rightarrow> (Inr result, count_success c w timer)
                | Inl parseError \<Rightarrow>
                    if str_includes endpoint ''users/me'' \<or> str_includes endpoint ''jwt-auth''
                    then (Inl (Err (WordPressAPIError (''Invalid JSON response: '' @ parseError) None)), c)
                    else (Inr (JStr responseText), count_success c w timer)))"

definition tryIndexPhpFallback ::
  "env \<Rightarrow> WordPressClient \<Rightarrow> world \<Rightarrow> string \<Rightarrow> FetchOptions \<Rightarrow> int
     \<Rightarrow> json option \<times> WordPressClient \<times> world" where
  \<comment> \<open>\<open>None\<close> is the result \<open>undefined\<close>\<close>
  "tryIndexPhpFallback e c w u fetchOptions timer =
     (case url_parse e u of
        None \<Rightarrow> (None, c, w)
      | Some urlObj \<Rightarrow>
          let endpointPath = replace_first (pathname urlObj) ''/wp-json/wp/v2'' [];
              queryParams = searchParams urlObj;
              fallbackUrl = origin urlObj @ ''/index.php?rest_route=/wp/v2'' @ endpointPath
                              @ (if queryParams \<noteq> [] then ''&'' @ queryParams else [])
          in (case fetch e w fallbackUrl fetchOptions of
                (Rejects t, w') \<Rightarrow> (None, c, w')
              | (Resolves fallbackResponse, w') \<Rightarrow>
                  if \<not> ok fallbackResponse then (None, c, w')
                  else (case body_text fallbackResponse of
                          Inl t \<Rightarrow> (None, c, w')
                        | Inr responseText \<Rightarrow>
                            if responseText = [] then (Some JNull, count_success c w' timer, w')
                            else (case json_parse e responseText of
                                    Inl parseError \<Rightarrow> (None, c, w')
                                  | Inr result \<Rightarrow> (Some result, count_success c w' timer, w')))))"

fun get_prop :: "json \<Rightarrow> string \<Rightarrow> json option" where
  \<comment> \<open>\<open>value[key]\<close> for the keys \<open>message\<close> and \<open>error\<close>; \<open>None\<close> is \<open>undefined\<close>\<close>
  "get_prop (JObj kvs) k = map_of kvs k"
| "get_prop v k = None"

definition first_truthy :: "json option \<Rightarrow> json option \<Rightarrow> json \<Rightarrow> json" where
  \<comment> \<open>\<open>a || b || c\<close>\<close>
  "first_truthy a b c =
     (case a of
        Some x \<Rightarrow> if truthy x then x
                  else (case b of Some y \<Rightarrow> if truthy y then y else c | None \<Rightarrow> c)
      | None \<Rightarrow> (case b of Some y \<Rightarrow> if truthy y then y else c | None \<Rightarrow> c))"

definition errorMessage_of :: "env \<Rightarrow> Response \<Rightarrow> string \<Rightarrow> json" where
  \<comment> \<open>the \<open>try\<close>/\<open>catch\<close> that computes \<open>errorMessage\<close>; reading a property of \<open>null\<close> throws\<close>
  "errorMessage_of e response errorText =
     (let plain = JStr (if errorText \<noteq> [] then errorText
                        else ''HTTP '' @ show_nat (status response) @ '': '' @ statusText response)
      in case json_parse e errorText of
           Inl parseError \<Rightarrow> plain
         | Inr errorData \<Rightarrow>
             if errorData = JNull then plain
             else first_truthy (get_prop errorData ''message'') (get_prop errorData ''error'')
                    (JStr (''HTTP '' @ show_nat (status response))))"

fun js_includes :: "json \<Rightarrow> string \<Rightarrow> thrown + bool" where
  \<comment> \<open>\<open>errorMessage.includes(s)\<close>: a substring test on a string, membership in an array,
      and a \<open>TypeError\<close> on a value without that method\<close>
  "js_includes (JStr m) s = Inr (str_includes m s)"
| "js_includes (JArr xs) s = Inr (JStr s \<in> set xs)"
| "js_includes v s = Inl (Err (PlainError ''TypeError'' ''errorMessage.includes is not a function''))"

definition beitraege :: string where
  \<comment> \<open>the phrase \<open>Beitr\"age zu erstellen\<close>, the umlaut as its two UTF-8 bytes\<close>
  "beitraege = ''Beitr'' @ [char_of (195::nat), char_of (164::nat)] @ ''ge zu erstellen''"

definition handleErrorResponseWithFallback ::
  "env \<Rightarrow> WordPressClient \<Rightarrow> world \<Rightarrow> Response \<Rightarrow> string \<Rightarrow> string \<Rightarrow> FetchOptions \<Rightarrow> int
     \<Rightarrow> (thrown + json option) \<times> WordPressClient \<times> world" where
  "handleErrorResponseWithFallback e c w response u originalEndpoint fetchOptions timer =
     (case body_text response of
        Inl t \<Rightarrow> (Inl t, c, w)
      | Inr errorText \<Rightarrow>
          let errorMessage = errorMessage_of e response errorText
          in if status response = 429 then
               (Inl (Err (RateLimitError (to_str errorMessage) (now w + 60000))),
                c\<lparr>stats := (stats c)\<lparr>rateLimitHits := rateLimitHits (stats c) + 1\<rparr>\<rparr>, w)
             else if status response = 403 \<and> str_includes originalEndpoint ''media''
                     \<and> http_method fetchOptions = ''POST'' then
               (Inl (Err (AuthenticationError
                    (''Media upload blocked: WordPress REST API media uploads appear to be disabled or restricted by a plugin/security policy. ''
                     @ ''Error: '' @ to_str errorMessage @ ''. ''
                     @ ''Common causes: W3 Total Cache, security plugins, or custom REST API restrictions. ''
                     @ ''Please check WordPress admin settings or contact your system administrator.'')
                    (auth_method (auth c)))), c, w)
             else (case js_includes errorMessage beitraege of
                     Inl t \<Rightarrow> (Inl t, c, w)
                   | Inr found \<Rightarrow>
                       if found \<and> str_includes originalEndpoint ''media'' then
                         (Inl (Err (AuthenticationError
                              (''WordPress REST API media upload restriction detected: '' @ to_str errorMessage @ ''. ''
                               @ ''This typically indicates that media uploads via REST API are disabled by WordPress configuration, ''
                               @ ''a security plugin (like W3 Total Cache, Borlabs Cookie), or server policy. ''
                               @ ''User has sufficient permissions but WordPress/plugins are blocking the upload.'')
                              (auth_method (auth c)))), c, w)
                       else if status response = 404 \<and> str_includes u ''/wp-json/wp/v2'' then
                         (case tryIndexPhpFallback e c w u fetchOptions timer of
                            (Some fallbackResult, c', w') \<Rightarrow> (Inr (Some fallbackResult), c', w')
                          | (None, c', w') \<Rightarrow>
                              (Inl (Err (WordPressAPIError (to_str errorMessage) (Some (status response)))), c', w'))
                       else (Inl (Err (WordPressAPIError (to_str errorMessage) (Some (status response)))), c, w)))"


text \<open>What is fixed during one call of \<open>request\<close>: its arguments and the constants computed
  before the loop.\<close>

record RequestCtx =
  rq_method :: string
  rq_url :: string
  rq_endpoint :: string
  rq_data :: js_data
  baseHeaders :: "(string \<times> string) list"
  requestTimeout :: nat
  maxAttempts :: int
  timer :: int

text \<open>
  One iteration of the \<open>for\<close> loop ends in one of five ways: \<open>return\<close> of a value, an
  exception that leaves \<open>request\<close> (thrown outside the \<open>try\<close>), \<open>break\<close> with \<open>lastError\<close>
  set, the end of the \<open>catch\<close> block after the backoff delay (the next iteration follows), or
  \<open>continue\<close>.
\<close>

datatype step =
    Return json
  | Throw thrown
  | Break js_error
  | Retry js_error
  | Continue

definition attempt_try ::
  "env \<Rightarrow> WordPressClient \<Rightarrow> world \<Rightarrow> RequestCtx \<Rightarrow> FetchOptions
     \<Rightarrow> (thrown + json option) \<times> WordPressClient \<times> world" where
  \<comment> \<open>the \<open>try\<close> block; \<open>Inr None\<close> is its \<open>continue\<close>\<close>
  "attempt_try e c w ctx fetchOptions =
     (case fetch e w (rq_url ctx) fetchOptions of
        (Rejects t, w') \<Rightarrow> (Inl t, c, w')
      | (Resolves response, w') \<Rightarrow>
          if \<not> ok response then
            handleErrorResponseWithFallback e c w' response (rq_url ctx) (rq_endpoint ctx)
              fetchOptions (timer ctx)
          else (case parseResponse e c w' response (rq_endpoint ctx) (timer ctx) of
                  (Inl t, c') \<Rightarrow> (Inl t, c', w')
                | (Inr result, c') \<Rightarrow> (Inr (Some result), c', w')))"

definition attempt_catch ::
  "RequestCtx \<Rightarrow> nat \<Rightarrow> thrown \<Rightarrow> WordPressClient \<Rightarrow> world \<Rightarrow> step \<times> WordPressClient \<times> world" where
  \<comment> \<open>the \<open>catch\<close> block\<close>
  "attempt_catch ctx attempt t c w =
     (if (case t of Err err \<Rightarrow> is_RateLimitError err | _ \<Rightarrow> False) then
        (Break (case t of Err err \<Rightarrow> err | _ \<Rightarrow> PlainError ''Error'' ''Unknown error''), c, w)
      else
        let lastError = normalizeRequestError t (requestTimeout ctx);
            shouldRetry = (shouldRetryError lastError \<and> int attempt < maxAttempts ctx - 1)
        in if \<not> shouldRetry then (Break lastError, c, w)
           else (Retry lastError, c, delay Backoff (1000 * (int attempt + 1)) w))"

definition attempt_once ::
  "env \<Rightarrow> WordPressClient \<Rightarrow> world \<Rightarrow> RequestCtx \<Rightarrow> nat \<Rightarrow> step \<times> WordPressClient \<times> world" where
  \<comment> \<open>the loop body; the \<open>Attempt\<close> event marks its entry\<close>
  "attempt_once e c w ctx attempt =
     (case rateLimit c (w\<lparr>trace := trace w @ [Attempt attempt]\<rparr>) of
        (c1, w1) \<Rightarrow>
          let fetchOptions = \<lparr>http_method = rq_method ctx, headers = baseHeaders ctx, body = None\<rparr>
          in (case (if data_truthy (rq_data ctx) \<and> rq_method ctx \<in> set [''POST'', ''PUT'', ''PATCH'']
                    then attachRequestBody fetchOptions (rq_data ctx)
                    else Inr fetchOptions) of
                Inl t \<Rightarrow> (Throw t, c1, w1)
              | Inr fetchOptions' \<Rightarrow>
                  (case attempt_try e c1 w1 ctx fetchOptions' of
                     (Inr (Some result), c2, w2) \<Rightarrow> (Return result, c2, w2)
                   | (Inr None, c2, w2) \<Rightarrow> (Continue, c2, w2)
                   | (Inl t, c2, w2) \<Rightarrow> attempt_catch ctx attempt t c2 w2)))"

definition request_failed ::
  "RequestCtx \<Rightarrow> js_error \<Rightarrow> WordPressClient \<Rightarrow> world \<Rightarrow> (thrown + json) \<times> WordPressClient \<times> world" where
  \<comment> \<open>the statements after the loop\<close>
  "request_failed ctx lastError c w =
     (Inl (Err (WordPressAPIError
        (''Request failed after '' @ show_int (maxAttempts ctx) @ '' attempt''
         @ (if maxAttempts ctx = 1 then [] else ''s'') @ '': '' @ error_message lastError) None)),
      c\<lparr>stats := (stats c)\<lparr>failedRequests := failedRequests (stats c) + 1\<rparr>\<rparr>, w)"

function request_loop ::
  "env \<Rightarrow> RequestCtx \<Rightarrow> nat \<Rightarrow> js_error \<Rightarrow> WordPressClient \<Rightarrow> world
     \<Rightarrow> (thrown + json) \<times> WordPressClient \<times> world" where
  \<comment> \<open>the \<open>for\<close> loop from the iteration \<open>attempt\<close> on, and what follows it\<close>
  "request_loop e ctx attempt lastError c w =
     (if int attempt < maxAttempts ctx then
        (case attempt_once e c w ctx attempt of
           (Return result, c', w') \<Rightarrow> (Inr result, c', w')
         | (Throw t, c', w') \<Rightarrow> (Inl t, c', w')
         | (Break err, c', w') \<Rightarrow> request_failed ctx err c' w'
         | (Retry err, c', w') \<Rightarrow> request_loop e ctx (Suc attempt) err c' w'
         | (Continue, c', w') \<Rightarrow> request_loop e ctx (Suc attempt) lastError c' w')
      else request_failed ctx lastError c w)"
  by pat_completeness auto
termination
  by (relation "measure (\<lambda>(e, ctx, attempt, lastError, c, w). nat (maxAttempts ctx - int attempt))") auto

declare request_loop.simps [simp del]

definition configuredRetries :: "WordPressClient \<Rightarrow> RequestOptions \<Rightarrow> int" where
  "configuredRetries c options =
     (case retries options of
        Some retryOverride \<Rightarrow>
          if retryOverride > 0 then retryOverride
          else if maxRetries c \<noteq> 0 then maxRetries c else 1
      | None \<Rightarrow> if maxRetries c \<noteq> 0 then maxRetries c else 1)"

definition request_ctx ::
  "env \<Rightarrow> WordPressClient \<Rightarrow> world \<Rightarrow> string \<Rightarrow> string \<Rightarrow> js_data \<Rightarrow> RequestOptions \<Rightarrow> RequestCtx" where
  \<comment> \<open>the constants \<open>request\<close> computes before its loop\<close>
  "request_ctx e c w method endpoint data options =
     (let cleanEndpoint = strip_leading_slashes endpoint;
          u = (if startsWith endpoint ''http'' then endpoint else apiUrl c @ ''/'' @ cleanEndpoint);
          hs = addAuthHeaders e c
                 (assign [(''Content-Type'', ''application/json''), (''User-Agent'', user_agent e)]
                    (case opt_headers options of None \<Rightarrow> [] | Some h \<Rightarrow> h));
          tmo = (case opt_timeout options of
                   Some t \<Rightarrow> if t \<noteq> 0 then t else timeout c
                 | None \<Rightarrow> timeout c)
      in \<lparr>rq_method = method, rq_url = u, rq_endpoint = endpoint, rq_data = data,
          baseHeaders = hs, requestTimeout = tmo,
          maxAttempts = (if isRetryableBody data then configuredRetries c options else 1),
          timer = now w\<rparr>)"

definition request ::
  "env \<Rightarrow> WordPressClient \<Rightarrow> world \<Rightarrow> string \<Rightarrow> string \<Rightarrow> js_data \<Rightarrow> RequestOptions
     \<Rightarrow> (thrown + json) \<times> WordPressClient \<times> world" where
  \<comment> \<open>\<open>Inl\<close> is the rejection of the promise, \<open>Inr\<close> the value it resolves to\<close>
  "request e c w method endpoint data options =
     (let c1 = c\<lparr>stats := (stats c)\<lparr>totalRequests := totalRequests (stats c) + 1\<rparr>\<rparr>
      in request_loop e (request_ctx e c1 w method endpoint data options) 0
           (PlainError ''Error'' ''Unknown error'') c1 w)"


subsection \<open>Construction\<close>

text \<open>
  \<open>config()\<close> is imported from \<open>config/Config.ts\<close>, which is not among the sources; the
  values the client reads from it are the fields of \<open>Config\<close>.
\<close>

record Config =
  siteUrl :: "string option"
  wp_timeout :: nat
  wp_maxRetries :: int
  authMethod :: "string option"
  wp_username :: "string option"
  wp_appPassword :: "string option"
  wp_password :: "string option"
  jwtSecret :: "string option"
  wp_apiKey :: "string option"
  cookieNonce :: "string option"
  rateLimit_per_minute :: nat
  isProduction :: bool

record ClientOptions =
  o_baseUrl :: "string option"
  o_timeout :: "nat option"
  o_maxRetries :: "int option"
  o_auth :: "AuthConfig option"

definition match_172 :: "string \<Rightarrow> bool" where
  \<comment> \<open>\<open>/^172\\.(1[6-9]|2[0-9]|3[01])\\./\<close>\<close>
  "match_172 h =
     (prefix ''172.'' h \<and>
      (case drop 4 h of
         d1 # d2 # d3 # rest \<Rightarrow>
           ((d1 = CHR ''1'' \<and> d2 \<in> set ''6789'')
            \<or> (d1 = CHR ''2'' \<and> d2 \<in> set ''0123456789'')
            \<or> (d1 = CHR ''3'' \<and> d2 \<in> set ''01''))
           \<and> d3 = CHR ''.''
       | _ \<Rightarrow> False))"

definition private_host :: "string \<Rightarrow> bool" where
  "private_host h =
     (h = ''localhost'' \<or> h = ''127.0.0.1'' \<or> h = ''::1''
      \<or> prefix ''10.'' h \<or> match_172 h \<or> prefix ''192.168.'' h)"

definition validateAndSanitizeUrl :: "env \<Rightarrow> bool \<Rightarrow> string \<Rightarrow> js_error + string" where
  \<comment> \<open>the second argument is \<open>config().app.isProduction\<close>; \<open>new URL\<close> throws a \<open>TypeError\<close>
      where \<open>url_parse\<close> is \<open>None\<close>\<close>
  "validateAndSanitizeUrl e production u =
     (if u = [] then Inl (PlainError ''Error'' ''WordPress site URL is required'')
      else (case url_parse e u of
              None \<Rightarrow> Inl (PlainError ''Error'' ''Invalid WordPress site URL format'')
            | Some parsed \<Rightarrow>
                if protocol parsed \<notin> set [''http:'', ''https:''] then
                  Inl (PlainError ''Error'' ''Only HTTP and HTTPS protocols are allowed'')
                else if production \<and> private_host (toLowerCase (hostname parsed)) then
                  Inl (PlainError ''Error'' ''Private/localhost URLs not allowed in production'')
                else Inr (strip_trailing_slash (protocol parsed @ ''//'' @ host parsed @ pathname parsed))))"

definition getAuthFromEnv :: "Config \<Rightarrow> AuthConfig" where
  "getAuthFromEnv cfg =
     (let none = \<lparr>auth_method = None, username = None, appPassword = None, password = None,
                  secret = None, apiKey = None, nonce = None\<rparr>
      in if authMethod cfg = Some ''app-password'' \<and> present (wp_username cfg) \<and> present (wp_appPassword cfg) then
           none\<lparr>auth_method := Some ''app-password'', username := wp_username cfg, appPassword := wp_appPassword cfg\<rparr>
         else if present (wp_username cfg) \<and> present (wp_appPassword cfg) then
           none\<lparr>auth_method := Some ''app-password'', username := wp_username cfg, appPassword := wp_appPassword cfg\<rparr>
         else if present (jwtSecret cfg) \<and> present (wp_username cfg) \<and> present (wp_password cfg) then
           none\<lparr>auth_method := Some ''jwt'', secret := jwtSecret cfg, username := wp_username cfg,
                password := wp_password cfg\<rparr>
         else if present (wp_apiKey cfg) then
           none\<lparr>auth_method := Some ''api-key'', apiKey := wp_apiKey cfg\<rparr>
         else if present (cookieNonce cfg) then
           none\<lparr>auth_method := Some ''cookie'', nonce := cookieNonce cfg\<rparr>
         else
           none\<lparr>auth_method := Some ''basic'',
                username := Some (if present (wp_username cfg) then str_of (wp_username cfg) else []),
                password := Some (if present (wp_password cfg) then str_of (wp_password cfg)
                                  else if present (wp_appPassword cfg) then str_of (wp_appPassword cfg)
                                  else [])\<rparr>)"

definition infer_auth :: "AuthConfig \<Rightarrow> AuthConfig" where
  \<comment> \<open>the constructor's branch for an \<open>auth\<close> option given without \<open>method\<close>\<close>
  "infer_auth a =
     (if present (username a) \<and> present (appPassword a) then a\<lparr>auth_method := Some ''app-password''\<rparr>
      else if present (username a) \<and> present (password a) \<and> present (secret a) then a\<lparr>auth_method := Some ''jwt''\<rparr>
      else if present (username a) \<and> present (password a) then a\<lparr>auth_method := Some ''basic''\<rparr>
      else if present (apiKey a) then a\<lparr>auth_method := Some ''api-key''\<rparr>
      else a\<lparr>auth_method := Some ''app-password''\<rparr>)"

definition fresh_stats :: ClientStats where
  "fresh_stats = \<lparr>totalRequests = 0, successfulRequests = 0, failedRequests = 0,
     averageResponseTime = 0, rateLimitHits = 0, authFailures = 0, errors = 0,
     stats_lastRequestTime = None\<rparr>"

definition new_WordPressClient :: "env \<Rightarrow> Config \<Rightarrow> ClientOptions \<Rightarrow> js_error + WordPressClient" where
  \<comment> \<open>the constructor, \<open>validateConfig\<close> included; the request interval \<open>60000 / rateLimit\<close>
      is taken in whole milliseconds\<close>
  "new_WordPressClient e cfg options =
     (let b0 = (if present (o_baseUrl options) then str_of (o_baseUrl options)
                else if present (siteUrl cfg) then str_of (siteUrl cfg) else [])
      in case validateAndSanitizeUrl e (isProduction cfg) b0 of
           Inl err \<Rightarrow> Inl err
         | Inr b \<Rightarrow>
             if b = [] then
               Inl (PlainError ''Error'' ''WordPress configuration is incomplete: baseUrl is required'')
             else
               Inr \<lparr>baseUrl = strip_trailing_slash b,
                    apiUrl = strip_trailing_slash b @ ''/wp-json/wp/v2'',
                    timeout = (case o_timeout options of
                                 Some t \<Rightarrow> if t \<noteq> 0 then t else wp_timeout cfg
                               | None \<Rightarrow> wp_timeout cfg),
                    maxRetries = (case o_maxRetries options of
                                    Some r \<Rightarrow> if r \<noteq> 0 then r else wp_maxRetries cfg
                                  | None \<Rightarrow> wp_maxRetries cfg),
                    auth = (case o_auth options of
                              Some a \<Rightarrow> if \<not> present (auth_method a) then infer_auth a else a
                            | None \<Rightarrow> getAuthFromEnv cfg),
                    lastRequestTime = 0,
                    requestInterval = 60000 div int (rateLimit_per_minute cfg),
                    authenticated = False,
                    jwtToken = None,
                    stats = fresh_stats\<rparr>)"

subsection \<open>Authentication and the other operations\<close>

definition no_options :: RequestOptions where
  "no_options = \<lparr>opt_headers = None, retries = None, opt_timeout = None\<rparr>"

fun thrown_message :: "thrown \<Rightarrow> string" where
  \<comment> \<open>\<open>(_error as Error).message\<close> inside a template literal\<close>
  "thrown_message (Err err) = error_message err"
| "thrown_message t = ''undefined''"

definition authenticateWithBasic ::
  "env \<Rightarrow> WordPressClient \<Rightarrow> world \<Rightarrow> (thrown + bool) \<times> WordPressClient \<times> world" where
  "authenticateWithBasic e c w =
     (let a = auth c;
          app = (auth_method a = Some ''app-password'');
          hasCredentials = (present (username a)
                            \<and> (if app then present (appPassword a) else present (password a)))
      in if \<not> hasCredentials then
           (Inl (Err (AuthenticationError
              (''Username and '' @ (if app then ''app password'' else ''password'')
               @ '' are required for '' @ (if app then ''Application Password'' else ''Basic'')
               @ '' authentication'') (auth_method a))), c, w)
         else (case request e c w ''GET'' ''users/me'' DNull no_options of
                 (Inr user, c', w') \<Rightarrow> (Inr True, c'\<lparr>authenticated := True\<rparr>, w')
               | (Inl t, c', w') \<Rightarrow>
                   (Inl (Err (AuthenticationError
                      (''Basic authentication failed: '' @ thrown_message t) (auth_method a))), c', w')))"

definition authenticateWithJWT ::
  "env \<Rightarrow> WordPressClient \<Rightarrow> world \<Rightarrow> (thrown + bool) \<times> WordPressClient \<times> world" where
  "authenticateWithJWT e c w =
     (let a = auth c;
          failed = (\<lambda>m. Inl (Err (AuthenticationError (''JWT authentication failed: '' @ m) (auth_method a))))
      in if \<not> present (secret a) \<or> \<not> present (username a) \<or> \<not> present (password a) then
           (Inl (Err (AuthenticationError
              ''JWT secret, username, and password are required for JWT authentication''
              (auth_method a))), c, w)
         else (case fetch e w (baseUrl c @ ''/wp-json/jwt-auth/v1/token'')
                      \<lparr>http_method = ''POST'', headers = [(''Content-Type'', ''application/json'')],
                       body = Some (DString (''{\"username\":'' @ json_quote e (str_of (username a))
                                             @ '',\"password\":'' @ json_quote e (str_of (password a)) @ ''}''))\<rparr> of
                 (Rejects t, w') \<Rightarrow> (failed (thrown_message t), c, w')
               | (Resolves response, w') \<Rightarrow>
                   if \<not> ok response then
                     (failed (''HTTP '' @ show_nat (status response) @ '': '' @ statusText response), c, w')
                   else (case body_text response of
                           Inl t \<Rightarrow> (failed (thrown_message t), c, w')
                         | Inr responseText \<Rightarrow>
                             (case json_parse e responseText of
                                Inl parseError \<Rightarrow> (failed parseError, c, w')
                              | Inr data \<Rightarrow>
                                  if data = JNull then
                                    (failed ''Cannot read properties of null (reading 'token')'', c, w')
                                  else (Inr True,
                                        c\<lparr>jwtToken := get_prop data ''token'', authenticated := True\<rparr>, w')))))"

definition authenticateWithCookie ::
  "env \<Rightarrow> WordPressClient \<Rightarrow> world \<Rightarrow> (thrown + bool) \<times> WordPressClient \<times> world" where
  "authenticateWithCookie e c w =
     (if \<not> present (nonce (auth c)) then
        (Inl (Err (AuthenticationError ''Nonce is required for cookie authentication''
                     (auth_method (auth c)))), c, w)
      else (Inr True, c\<lparr>authenticated := True\<rparr>, w))"

definition authenticate ::
  "env \<Rightarrow> WordPressClient \<Rightarrow> world \<Rightarrow> (thrown + bool) \<times> WordPressClient \<times> world" where
  "authenticate e c w =
     (let m = map_option toLowerCase (auth_method (auth c));
          attempt =
            (if m = Some ''app-password'' \<or> m = Some ''basic'' then authenticateWithBasic e c w
             else if m = Some ''jwt'' then authenticateWithJWT e c w
             else if m = Some ''cookie'' then authenticateWithCookie e c w
             else if m = Some ''api-key'' then (Inr True, c\<lparr>authenticated := True\<rparr>, w)
             else (Inl (Err (PlainError ''Error''
                     (''Unsupported authentication method: ''
                      @ (case m of None \<Rightarrow> ''undefined'' | Some n \<Rightarrow> n)))), c, w))
      in case attempt of
           (Inl t, c', w') \<Rightarrow>
             (Inl t, c'\<lparr>stats := (stats c')\<lparr>authFailures := authFailures (stats c') + 1\<rparr>\<rparr>, w')
         | (Inr b, c', w') \<Rightarrow> (Inr b, c', w'))"

definition disconnect :: "WordPressClient \<Rightarrow> WordPressClient" where
  "disconnect c = c\<lparr>authenticated := False, jwtToken := None\<rparr>"

text \<open>
  The operations that change a client after its construction.  The helpers \<open>get\<close>, \<open>post\<close>,
  \<open>put\<close>, \<open>patch\<close> and \<open>delete\<close> and every resource method are calls of \<open>request\<close>;
  \<open>initialize\<close> is \<open>authenticate\<close>; the getters change nothing.  Between two operations
  the clock may advance.
\<close>

datatype client_op =
    OpRequest string string js_data RequestOptions
  | OpAuthenticate
  | OpInitialize
  | OpDisconnect
  | OpIdle nat

fun perform :: "env \<Rightarrow> client_op \<Rightarrow> WordPressClient \<times> world \<Rightarrow> WordPressClient \<times> world" where
  "perform e (OpRequest m ep d opts) (c, w) = snd (request e c w m ep d opts)"
| "perform e OpAuthenticate (c, w) = snd (authenticate e c w)"
| "perform e OpInitialize (c, w) = snd (authenticate e c w)"
| "perform e OpDisconnect (c, w) = (disconnect c, w)"
| "perform e (OpIdle ms) (c, w) = (c, w\<lparr>now := now w + int ms\<rparr>)"

definition perform_all :: "env \<Rightarrow> client_op list \<Rightarrow> WordPressClient \<times> world \<Rightarrow> WordPressClient \<times> world" where
  "perform_all e ops cw = fold (perform e) ops cw"

text \<open>A sequence of \<open>request\<close> calls, each after some idle time; every call is listed with
  its result and with the time it took.\<close>

record call =
  idle :: nat
  call_method :: string
  call_endpoint :: string
  call_data :: js_data
  call_options :: RequestOptions

fun run_requests ::
  "env \<Rightarrow> WordPressClient \<Rightarrow> world \<Rightarrow> call list
     \<Rightarrow> ((thrown + json) \<times> int) list \<times> WordPressClient \<times> world" where
  "run_requests e c w [] = ([], c, w)"
| "run_requests e c w (k # ks) =
     (let w0 = w\<lparr>now := now w + int (idle k)\<rparr>
      in case request e c w0 (call_method k) (call_endpoint k) (call_data k) (call_options k) of
           (r, c', w') \<Rightarrow>
             (case run_requests e c' w' ks of
                (rs, c'', w'') \<Rightarrow> ((r, now w' - now w0) # rs, c'', w'')))"

fun durations :: "((thrown + json) \<times> int) list \<Rightarrow> int list" where
  \<comment> \<open>the durations of the calls that returned a value\<close>
  "durations [] = []"
| "durations ((Inr v, d) # rs) = d # durations rs"
| "durations ((Inl t, d) # rs) = durations rs"

subsection \<open>Reading the trace\<close>

definition new_events :: "world \<Rightarrow> world \<Rightarrow> event list" where
  \<comment> \<open>what was appended to the trace between two worlds\<close>
  "new_events w w' = drop (length (trace w)) (trace w')"

fun attempts_of :: "event list \<Rightarrow> nat list" where
  "attempts_of [] = []"
| "attempts_of (Attempt i # evs) = i # attempts_of evs"
| "attempts_of (ev # evs) = attempts_of evs"

fun backoffs_of :: "event list \<Rightarrow> int list" where
  "backoffs_of [] = []"
| "backoffs_of (Delay Backoff ms # evs) = ms # backoffs_of evs"
| "backoffs_of (ev # evs) = backoffs_of evs"

fun fetches_of :: "event list \<Rightarrow> (string \<times> FetchOptions) list" where
  "fetches_of [] = []"
| "fetches_of (Fetch u fo # evs) = (u, fo) # fetches_of evs"
| "fetches_of (ev # evs) = fetches_of evs"

fun schedule_of :: "event list \<Rightarrow> event list" where
  \<comment> \<open>the attempts and the backoff delays, in their order\<close>
  "schedule_of [] = []"
| "schedule_of (Attempt i # evs) = Attempt i # schedule_of evs"
| "schedule_of (Delay Backoff ms # evs) = Delay Backoff ms # schedule_of evs"
| "schedule_of (ev # evs) = schedule_of evs"


fun stringify_throws :: "js_data \<Rightarrow> bool" where
  \<comment> \<open>the bodies on which \<open>attachRequestBody\<close> throws: \<open>JSON.stringify\<close> is reached and fails\<close>
  "stringify_throws (DOther ob) =
     (\<not> (instanceof_FormData ob \<or> append_is_function ob) \<and> isl (stringify ob))"
| "stringify_throws d = False"

definition retry_schedule :: "nat \<Rightarrow> nat \<Rightarrow> event list" where
  \<comment> \<open>attempts \<open>i\<close> to \<open>i + n\<close>, each but the last followed by its backoff delay\<close>
  "retry_schedule i n =
     concat (map (\<lambda>j. [Attempt j, Delay Backoff (1000 * (int j + 1))]) [i..<i + n]) @ [Attempt (i + n)]"


definition counters_le :: "ClientStats \<Rightarrow> ClientStats \<Rightarrow> bool" where
  "counters_le s s' =
     (totalRequests s \<le> totalRequests s' \<and> successfulRequests s \<le> successfulRequests s'
      \<and> failedRequests s \<le> failedRequests s' \<and> rateLimitHits s \<le> rateLimitHits s'
      \<and> authFailures s \<le> authFailures s')"

subsection \<open>Concrete inputs\<close>

text \<open>A network that answers from a list, a parser that knows a few texts, and a client
  of \<open>https://example.com\<close> with three attempts per call.\<close>

definition script :: "exchange list \<Rightarrow> nat \<Rightarrow> exchange" where
  "script xs n =
     (if n < length xs then xs ! n
      else \<lparr>outcome = Rejects (Err (PlainError ''TypeError'' ''fetch failed'')), elapsed = 0\<rparr>)"

definition answer :: "nat \<Rightarrow> string \<Rightarrow> string \<Rightarrow> nat \<Rightarrow> exchange" where
  "answer st stText txt ms =
     \<lparr>outcome = Resolves \<lparr>status = st, statusText = stText, body_text = Inr txt\<rparr>, elapsed = ms\<rparr>"

definition failure :: "string \<Rightarrow> string \<Rightarrow> nat \<Rightarrow> exchange" where
  "failure nm msg ms = \<lparr>outcome = Rejects (Err (PlainError nm msg)), elapsed = ms\<rparr>"

definition demo_parse :: "string \<Rightarrow> string + json" where
  "demo_parse s =
     (if s = ''[1,2]'' then Inr (JArr [JNum 1, JNum 2])
      else if s = ''7'' then Inr (JNum 7)
      else if s = ''null'' then Inr JNull
      else Inl ''Unexpected token'')"

definition demo_url :: "string \<Rightarrow> url option" where
  "demo_url s =
     (if s = ''https://example.com/wp-json/wp/v2/posts'' then
        Some \<lparr>protocol = ''https:'', hostname = ''example.com'', host = ''example.com'',
              pathname = ''/wp-json/wp/v2/posts'', origin = ''https://example.com'', searchParams = []\<rparr>
      else if s = ''https://example.com/wp-json/wp/v2/posts?page=2'' then
        Some \<lparr>protocol = ''https:'', hostname = ''example.com'', host = ''example.com'',
              pathname = ''/wp-json/wp/v2/posts'', origin = ''https://example.com'', searchParams = ''page=2''\<rparr>
      else if s = ''http://localhost:8080/blog/?x=1#top'' then
        Some \<lparr>protocol = ''http:'', hostname = ''localhost'', host = ''localhost:8080'',
              pathname = ''/blog/'', origin = ''http://localhost:8080'', searchParams = ''x=1''\<rparr>
      else if s = ''http://127.0.0.2/'' then
        Some \<lparr>protocol = ''http:'', hostname = ''127.0.0.2'', host = ''127.0.0.2'',
              pathname = ''/'', origin = ''http://127.0.0.2'', searchParams = []\<rparr>
      else if s = ''https://example.com/a///'' then
        Some \<lparr>protocol = ''https:'', hostname = ''example.com'', host = ''example.com'',
              pathname = ''/a///'', origin = ''https://example.com'', searchParams = []\<rparr>
      else None)"

definition demo_env :: "exchange list \<Rightarrow> env" where
  "demo_env xs = \<lparr>net = script xs, json_parse = demo_parse, url_parse = demo_url,
     json_quote = (\<lambda>s. [CHR 0x22] @ s @ [CHR 0x22]), base64 = (\<lambda>s. s), user_agent = ''mcp-wordpress''\<rparr>"

definition demo_client :: WordPressClient where
  "demo_client =
     \<lparr>baseUrl = ''https://example.com'', apiUrl = ''https://example.com/wp-json/wp/v2'',
      timeout = 30000, maxRetries = 3,
      auth = \<lparr>auth_method = Some ''api-key'', username = None, appPassword = None, password = None,
               secret = None, apiKey = Some ''k'', nonce = None\<rparr>,
      lastRequestTime = 0, requestInterval = 1000, authenticated = False, jwtToken = None,
      stats = fresh_stats\<rparr>"

definition demo_world :: world where
  "demo_world = \<lparr>now = 5000, served = 0, trace = []\<rparr>"

definition demo_config :: "bool \<Rightarrow> Config" where
  "demo_config production =
     \<lparr>siteUrl = None, wp_timeout = 30000, wp_maxRetries = 3, authMethod = None,
      wp_username = None, wp_appPassword = None, wp_password = None, jwtSecret = None,
      wp_apiKey = Some ''k'', cookieNonce = None, rateLimit_per_minute = 60,
      isProduction = production\<rparr>"

definition demo_options :: "string \<Rightarrow> ClientOptions" where
  "demo_options u = \<lparr>o_baseUrl = Some u, o_timeout = None, o_maxRetries = None, o_auth = None\<rparr>"

definition cyclic_object :: js_data where
  \<comment> \<open>a plain object that refers to itself: \<open>JSON.stringify\<close> throws\<close>
  "cyclic_object = DOther \<lparr>instanceof_FormData = False, append_is_function = False,
     getHeaders = None, pipe_is_function = False,
     stringify = Inl (Err (PlainError ''TypeError'' ''Converting circular structure to JSON''))\<rparr>"

definition upload_stream :: js_data where
  \<comment> \<open>a readable stream: it has a \<open>pipe\<close> function\<close>
  "upload_stream = DOther \<lparr>instanceof_FormData = False, append_is_function = False,
     getHeaders = None, pipe_is_function = True, stringify = Inr ''{}''\<rparr>"


definition demo_ctx :: "string \<Rightarrow> RequestCtx" where
  "demo_ctx ep = request_ctx (demo_env []) demo_client demo_world ''GET'' ep DNull no_options"

definition demo_fetch_options :: FetchOptions where
  "demo_fetch_options = \<lparr>http_method = ''GET'', headers = baseHeaders (demo_ctx ''posts''), body = None\<rparr>"

definition two_calls :: "call list" where
  "two_calls =
     [\<lparr>idle = 0, call_method = ''GET'', call_endpoint = ''posts'', call_data = DNull,
       call_options = no_options\<rparr>,
      \<lparr>idle = 2000, call_method = ''GET'', call_endpoint = ''pages'', call_data = DNull,
       call_options = no_options\<rparr>]"

definition three_failures :: "exchange list" where
  "three_failures = [answer 500 ''Internal Server Error'' ''boom'' 10,
                     answer 500 ''Internal Server Error'' ''boom'' 10,
                     answer 500 ''Internal Server Error'' ''boom'' 10]"

definition recovery :: "exchange list" where
  "recovery = [answer 500 ''Internal Server Error'' ''boom'' 10,
               answer 500 ''Internal Server Error'' ''boom'' 10,
               answer 200 ''OK'' ''7'' 10]"


definition rate_limited :: "exchange list" where
  "rate_limited = [answer 429 ''Too Many Requests'' ''slow down'' 10, answer 200 ''OK'' ''7'' 10]"

definition proxy_refusal :: "exchange list" where
  "proxy_refusal = [failure ''Error'' ''Proxy response (403) !== 200 when HTTP Tunneling'' 10,
                    answer 200 ''OK'' ''7'' 10]"

definition aborted :: "exchange list" where
  "aborted = [failure ''AbortError'' ''This operation was aborted'' 30000, answer 200 ''OK'' ''7'' 10]"

definition flaky :: "exchange list" where
  "flaky = [failure ''TypeError'' ''fetch failed'' 10, answer 200 ''OK'' ''7'' 10]"

definition not_found_twice :: "exchange list" where
  "not_found_twice = [answer 404 ''Not Found'' ''no route'' 10,
                      answer 500 ''Internal Server Error'' ''boom'' 10,
                      answer 404 ''Not Found'' ''no route'' 10,
                      answer 500 ''Internal Server Error'' ''boom'' 10,
                      answer 200 ''OK'' ''7'' 10]"

definition plain_permalinks :: "exchange list" where
  "plain_permalinks = [answer 404 ''Not Found'' ''no route'' 10, answer 200 ''OK'' ''[1,2]'' 10]"

section \<open>Properties\<close>

subsection \<open>What each step changes\<close>

text \<open>
  For every function of the pipeline: what it can do to the statistics, to the clock, to the
  number of fetches and to the trace.  Statements about an attempt are made for \<open>attempt_once\<close>
  and \<open>request_loop\<close> at any iteration and in any state; \<open>request\<close> is \<open>request_loop\<close> from
  iteration 0, so every iteration of every call is an instance.
\<close>

lemma count_success_stats [simp]:
  "successfulRequests (stats (count_success c w t)) = successfulRequests (stats c) + 1"
  "totalRequests (stats (count_success c w t)) = totalRequests (stats c)"
  "failedRequests (stats (count_success c w t)) = failedRequests (stats c)"
  "rateLimitHits (stats (count_success c w t)) = rateLimitHits (stats c)"
  "authFailures (stats (count_success c w t)) = authFailures (stats c)"
  "errors (stats (count_success c w t)) = errors (stats c)"
  by (simp_all add: count_success_def updateAverageResponseTime_def Let_def)

lemma count_success_average:
  "averageResponseTime (stats (count_success c w t)) =
     (averageResponseTime (stats c) * real (successfulRequests (stats c)) + real_of_int (now w - t))
       / real (successfulRequests (stats c) + 1)"
  by (simp add: count_success_def updateAverageResponseTime_def Let_def timer_end_def)

lemma count_success_cong:
  "stats c1 = stats c \<Longrightarrow> stats (count_success c1 w t) = stats (count_success c w t)"
  by (simp add: count_success_def updateAverageResponseTime_def Let_def)

lemma fetch_simps [simp]:
  "fst (fetch e w u fo) = outcome (net e (served w))"
  "served (snd (fetch e w u fo)) = Suc (served w)"
  "now (snd (fetch e w u fo)) = now w + int (elapsed (net e (served w)))"
  "trace (snd (fetch e w u fo)) = trace w @ [Fetch u fo]"
  by (simp_all add: fetch_def Let_def)

lemma fetch_eq:
  "fetch e w u fo = (r, w') \<longleftrightarrow>
     r = outcome (net e (served w)) \<and>
     w' = w\<lparr>now := now w + int (elapsed (net e (served w))), served := Suc (served w),
            trace := trace w @ [Fetch u fo]\<rparr>"
  by (auto simp: fetch_def Let_def)

lemma schedule_of_append [simp]: "schedule_of (xs @ ys) = schedule_of xs @ schedule_of ys"
  by (induction xs rule: schedule_of.induct) auto

lemma attempts_of_append [simp]: "attempts_of (xs @ ys) = attempts_of xs @ attempts_of ys"
  by (induction xs rule: attempts_of.induct) auto

lemma backoffs_of_append [simp]: "backoffs_of (xs @ ys) = backoffs_of xs @ backoffs_of ys"
  by (induction xs rule: backoffs_of.induct) auto

lemma fetches_of_append [simp]: "fetches_of (xs @ ys) = fetches_of xs @ fetches_of ys"
  by (induction xs rule: fetches_of.induct) auto

lemma attempts_of_schedule [simp]: "attempts_of (schedule_of xs) = attempts_of xs"
  by (induction xs rule: schedule_of.induct) auto

lemma backoffs_of_schedule [simp]: "backoffs_of (schedule_of xs) = backoffs_of xs"
  by (induction xs rule: schedule_of.induct) auto

lemma new_events_append [simp]: "trace w' = trace w @ evs \<Longrightarrow> new_events w w' = evs"
  by (simp add: new_events_def)

lemma rateLimit_effect:
  assumes "rateLimit c w = (c1, w1)"
  shows "c1 = c\<lparr>lastRequestTime := now w1\<rparr>" "served w1 = served w" "now w \<le> now w1"
    "\<exists>evs. trace w1 = trace w @ evs \<and> schedule_of evs = [] \<and> fetches_of evs = []"
  using assms by (auto simp: rateLimit_def Let_def delay_def split: if_splits)

lemma tryIndexPhpFallback_effect:
  assumes "tryIndexPhpFallback e c w u fo t = (r, c', w')"
  shows "case r of None \<Rightarrow> c' = c | Some v \<Rightarrow> c' = count_success c w' t"
    "now w \<le> now w'" "served w \<le> served w'"
    "\<exists>evs. trace w' = trace w @ evs \<and> schedule_of evs = []"
  using assms
  by (auto simp: tryIndexPhpFallback_def Let_def fetch_eq
      split: option.splits fetch_outcome.splits sum.splits if_splits prod.splits)


lemma handleError_cases:
  assumes "handleErrorResponseWithFallback e c w r u ep fo t = (res, c', w')"
  shows "(\<exists>x. res = Inl x \<and> c' = c \<and> w' = w)
       \<or> (\<exists>m. res = Inl (Err (RateLimitError m (now w + 60000))) \<and> w' = w \<and> status r = 429
              \<and> c' = c\<lparr>stats := (stats c)\<lparr>rateLimitHits := rateLimitHits (stats c) + 1\<rparr>\<rparr>)
       \<or> (\<exists>v. res = Inr (Some v) \<and> tryIndexPhpFallback e c w u fo t = (Some v, c', w'))
       \<or> (\<exists>x. res = Inl x \<and> tryIndexPhpFallback e c w u fo t = (None, c', w'))"
  using assms unfolding handleErrorResponseWithFallback_def Let_def
  by (simp split: sum.splits if_splits prod.splits option.splits) blast+

lemma handleError_effect:
  assumes "handleErrorResponseWithFallback e c w r u ep fo t = (res, c', w')"
  shows "res \<noteq> Inr None"
    "case res of Inr v \<Rightarrow> c' = count_success c w' t
       | Inl x \<Rightarrow> c' = c \<or> c' = c\<lparr>stats := (stats c)\<lparr>rateLimitHits := rateLimitHits (stats c) + 1\<rparr>\<rparr>
                              \<and> (\<exists>m ra. x = Err (RateLimitError m ra))"
    "now w \<le> now w'" "served w \<le> served w'"
    "\<exists>evs. trace w' = trace w @ evs \<and> schedule_of evs = []"
  using handleError_cases[OF assms]
  by (auto dest: tryIndexPhpFallback_effect)


lemma attempt_try_cases:
  assumes "attempt_try e c w ctx fo = (res, c', w')"
  shows "(\<exists>t. outcome (net e (served w)) = Rejects t \<and> res = Inl t \<and> c' = c
              \<and> w' = snd (fetch e w (rq_url ctx) fo))
       \<or> (\<exists>r. outcome (net e (served w)) = Resolves r \<and> \<not> ok r
              \<and> handleErrorResponseWithFallback e c (snd (fetch e w (rq_url ctx) fo)) r
                   (rq_url ctx) (rq_endpoint ctx) fo (timer ctx) = (res, c', w'))
       \<or> (\<exists>r. outcome (net e (served w)) = Resolves r \<and> ok r
              \<and> w' = snd (fetch e w (rq_url ctx) fo)
              \<and> ((\<exists>t. res = Inl t \<and> c' = c) \<or> (\<exists>v. res = Inr (Some v) \<and> c' = count_success c w' (timer ctx))))"
  using assms unfolding attempt_try_def parseResponse_def
  by (auto simp: fetch_def Let_def split: prod.splits fetch_outcome.splits if_splits sum.splits)

lemma attempt_try_effect:
  assumes "attempt_try e c w ctx fo = (res, c', w')"
  shows "res \<noteq> Inr None"
    "case res of Inr v \<Rightarrow> c' = count_success c w' (timer ctx)
       | Inl x \<Rightarrow> c' = c \<or> c' = c\<lparr>stats := (stats c)\<lparr>rateLimitHits := rateLimitHits (stats c) + 1\<rparr>\<rparr>
                              \<and> (\<exists>m ra. x = Err (RateLimitError m ra))"
    "now w \<le> now w'" "served w < served w'"
    "\<exists>evs. trace w' = trace w @ evs \<and> schedule_of evs = []"
proof -
  note cs = attempt_try_cases[OF assms]
  show "res \<noteq> Inr None"
    using cs by (auto dest: handleError_effect(1))
  show "case res of Inr v \<Rightarrow> c' = count_success c w' (timer ctx)
       | Inl x \<Rightarrow> c' = c \<or> c' = c\<lparr>stats := (stats c)\<lparr>rateLimitHits := rateLimitHits (stats c) + 1\<rparr>\<rparr>
                              \<and> (\<exists>m ra. x = Err (RateLimitError m ra))"
    using cs by (auto dest: handleError_effect(2))
  show "now w \<le> now w'"
    using cs by (auto dest: handleError_effect(3))
  show "served w < served w'"
    using cs by (auto dest: handleError_effect(4))
  show "\<exists>evs. trace w' = trace w @ evs \<and> schedule_of evs = []"
    using cs by (auto dest!: handleError_effect(5))
qed

lemma attempt_catch_cases:
  assumes "attempt_catch ctx i t c w = (st, c', w')"
  shows "c' = c \<and>
         ((\<exists>err. st = Break err \<and> w' = w) \<or>
          (st = Retry (normalizeRequestError t (requestTimeout ctx))
             \<and> w' = delay Backoff (1000 * (int i + 1)) w \<and> int i < maxAttempts ctx - 1
             \<and> shouldRetryError (normalizeRequestError t (requestTimeout ctx))
             \<and> (\<forall>m ra. t \<noteq> Err (RateLimitError m ra))))"
  using assms unfolding attempt_catch_def Let_def
  by (auto split: if_splits thrown.splits)

lemma attachRequestBody_Inl:
  "attachRequestBody fo d = Inl t \<Longrightarrow> stringify_throws d"
  by (cases d) (auto split: if_splits sum.splits)

lemma attempt_once_cases:
  assumes "attempt_once e c w ctx i = (st, c', w')"
  obtains (throw) c1 w1 t where "rateLimit c (w\<lparr>trace := trace w @ [Attempt i]\<rparr>) = (c1, w1)"
      "st = Throw t" "c' = c1" "w' = w1" "stringify_throws (rq_data ctx)"
  | (return) c1 w1 fo v where "rateLimit c (w\<lparr>trace := trace w @ [Attempt i]\<rparr>) = (c1, w1)"
      "attempt_try e c1 w1 ctx fo = (Inr (Some v), c', w')" "st = Return v"
  | (continue) c1 w1 fo where "rateLimit c (w\<lparr>trace := trace w @ [Attempt i]\<rparr>) = (c1, w1)"
      "attempt_try e c1 w1 ctx fo = (Inr None, c', w')" "st = Continue"
  | (catch) c1 w1 fo t c2 w2 where "rateLimit c (w\<lparr>trace := trace w @ [Attempt i]\<rparr>) = (c1, w1)"
      "attempt_try e c1 w1 ctx fo = (Inl t, c2, w2)" "attempt_catch ctx i t c2 w2 = (st, c', w')"
  using assms unfolding attempt_once_def Let_def
  by (auto split: prod.splits sum.splits option.splits if_splits dest: attachRequestBody_Inl)

lemma attempt_once_effect:
  assumes "attempt_once e c w ctx i = (st, c', w')"
  shows "st \<noteq> Continue"
    "case st of Return v \<Rightarrow> stats c' = stats (count_success c w' (timer ctx))
       | Throw t \<Rightarrow> stats c' = stats c \<and> stringify_throws (rq_data ctx)
       | Break err \<Rightarrow> stats c' = stats c
            \<or> stats c' = (stats c)\<lparr>rateLimitHits := rateLimitHits (stats c) + 1\<rparr>
       | Retry err \<Rightarrow> stats c' = stats c
       | Continue \<Rightarrow> False"
    "\<exists>evs. trace w' = trace w @ evs
        \<and> schedule_of evs = (case st of Retry err \<Rightarrow> [Attempt i, Delay Backoff (1000 * (int i + 1))]
                                | _ \<Rightarrow> [Attempt i])"
    "now w + (case st of Retry err \<Rightarrow> 1000 * (int i + 1) | _ \<Rightarrow> 0) \<le> now w'"
    "(\<exists>err. st = Retry err) \<longrightarrow> int i < maxAttempts ctx - 1"
    "served w \<le> served w'"
proof -
  show "st \<noteq> Continue"
    using assms
    by (cases rule: attempt_once_cases) (auto dest: attempt_try_effect(1) attempt_catch_cases)
  show "case st of Return v \<Rightarrow> stats c' = stats (count_success c w' (timer ctx))
       | Throw t \<Rightarrow> stats c' = stats c \<and> stringify_throws (rq_data ctx)
       | Break err \<Rightarrow> stats c' = stats c
            \<or> stats c' = (stats c)\<lparr>rateLimitHits := rateLimitHits (stats c) + 1\<rparr>
       | Retry err \<Rightarrow> stats c' = stats c
       | Continue \<Rightarrow> False"
    using assms
  proof (cases rule: attempt_once_cases)
    case (throw c1 w1 t)
    then show ?thesis by (auto dest: rateLimit_effect(1))
  next
    case (return c1 w1 fo v)
    from return(1) have "stats c1 = stats c" by (auto dest: rateLimit_effect(1))
    then have "stats (count_success c1 w' (timer ctx)) = stats (count_success c w' (timer ctx))"
      by (rule count_success_cong)
    moreover from return(2) have "c' = count_success c1 w' (timer ctx)"
      by (auto dest!: attempt_try_effect(2))
    ultimately show ?thesis using return(3) by simp
  next
    case (continue c1 w1 fo)
    then show ?thesis by (auto dest: attempt_try_effect(1))
  next
    case (catch c1 w1 fo t c2 w2)
    from catch(1) have 1: "stats c1 = stats c" by (auto dest: rateLimit_effect(1))
    from catch(2) have 2: "stats c2 = stats c1
        \<or> stats c2 = (stats c1)\<lparr>rateLimitHits := rateLimitHits (stats c1) + 1\<rparr>
           \<and> (\<exists>m ra. t = Err (RateLimitError m ra))"
      by (auto dest!: attempt_try_effect(2))
    from catch(3) have 3: "c' = c2"
      "(\<exists>err. st = Break err) \<or> (\<exists>err. st = Retry err) \<and> (\<forall>m ra. t \<noteq> Err (RateLimitError m ra))"
      by (auto dest!: attempt_catch_cases)
    from 1 2 3 show ?thesis
      by auto
  qed
  show "\<exists>evs. trace w' = trace w @ evs
        \<and> schedule_of evs = (case st of Retry err \<Rightarrow> [Attempt i, Delay Backoff (1000 * (int i + 1))]
                                | _ \<Rightarrow> [Attempt i])"
    using assms
  proof (cases rule: attempt_once_cases)
    case (throw c1 w1 t)
    then show ?thesis by (auto dest!: rateLimit_effect(4))
  next
    case (return c1 w1 fo v)
    then show ?thesis by (auto dest!: rateLimit_effect(4) attempt_try_effect(5))
  next
    case (continue c1 w1 fo)
    then show ?thesis by (auto dest: attempt_try_effect(1))
  next
    case (catch c1 w1 fo t c2 w2)
    then show ?thesis
      by (auto dest!: rateLimit_effect(4) attempt_try_effect(5) attempt_catch_cases simp: delay_def)
  qed
  show "now w + (case st of Retry err \<Rightarrow> 1000 * (int i + 1) | _ \<Rightarrow> 0) \<le> now w'"
    using assms
  proof (cases rule: attempt_once_cases)
    case (throw c1 w1 t)
    then show ?thesis by (auto dest!: rateLimit_effect(3))
  next
    case (return c1 w1 fo v)
    then show ?thesis by (auto dest!: rateLimit_effect(3) attempt_try_effect(3))
  next
    case (continue c1 w1 fo)
    then show ?thesis by (auto dest: attempt_try_effect(1))
  next
    case (catch c1 w1 fo t c2 w2)
    then show ?thesis
      by (auto dest!: rateLimit_effect(3) attempt_try_effect(3) attempt_catch_cases simp: delay_def)
  qed
  show "(\<exists>err. st = Retry err) \<longrightarrow> int i < maxAttempts ctx - 1"
    using assms
    by (cases rule: attempt_once_cases) (auto dest!: attempt_catch_cases)
  show "served w \<le> served w'"
    using assms
  proof (cases rule: attempt_once_cases)
    case (throw c1 w1 t)
    then show ?thesis by (auto dest!: rateLimit_effect(2))
  next
    case (return c1 w1 fo v)
    then show ?thesis by (auto dest!: rateLimit_effect(2) attempt_try_effect(4))
  next
    case (continue c1 w1 fo)
    then show ?thesis by (auto dest: attempt_try_effect(1))
  next
    case (catch c1 w1 fo t c2 w2)
    then show ?thesis
      by (auto dest!: rateLimit_effect(2) attempt_try_effect(4) attempt_catch_cases simp: delay_def)
  qed
qed

subsection \<open>The retry loop\<close>

lemma retry_schedule_0 [simp]: "retry_schedule i 0 = [Attempt i]"
  by (simp add: retry_schedule_def)

lemma retry_schedule_Suc:
  "retry_schedule i (Suc n) = Attempt i # Delay Backoff (1000 * (int i + 1)) # retry_schedule (Suc i) n"
  by (simp add: retry_schedule_def upt_conv_Cons)

lemma backoffs_of_retry_schedule:
  "backoffs_of (retry_schedule i n) = map (\<lambda>j. 1000 * (int j + 1)) [i..<i + n]"
  by (induction n arbitrary: i) (simp_all add: retry_schedule_Suc upt_conv_Cons)

lemma attempts_of_retry_schedule:
  "attempts_of (retry_schedule i n) = [i..<Suc (i + n)]"
proof (induction n arbitrary: i)
  case 0
  then show ?case by simp
next
  case (Suc n)
  have "[i..<Suc (i + Suc n)] = i # [Suc i..<Suc (Suc i + n)]"
    by (simp add: upt_conv_Cons)
  with Suc show ?case by (simp add: retry_schedule_Suc)
qed

lemma request_failed_effect:
  assumes "request_failed ctx err c w = (r, c', w')"
  shows "r = Inl (Err (WordPressAPIError
        (''Request failed after '' @ show_int (maxAttempts ctx) @ '' attempt''
         @ (if maxAttempts ctx = 1 then [] else ''s'') @ '': '' @ error_message err) None))"
    "c' = c\<lparr>stats := (stats c)\<lparr>failedRequests := failedRequests (stats c) + 1\<rparr>\<rparr>" "w' = w"
  using assms by (auto simp: request_failed_def)

lemma request_loop_schedule:
  assumes "request_loop e ctx i le c w = (r, c', w')" and "int i < maxAttempts ctx"
  shows "\<exists>n evs. trace w' = trace w @ evs \<and> schedule_of evs = retry_schedule i n
           \<and> int (i + n) < maxAttempts ctx \<and> now w + sum_list (backoffs_of evs) \<le> now w'"
  using assms
proof (induction e ctx i le c w arbitrary: r c' w' rule: request_loop.induct)
  case (1 e ctx attempt lastError c w)
  obtain st c1 w1 where once: "attempt_once e c w ctx attempt = (st, c1, w1)"
    by (cases "attempt_once e c w ctx attempt") auto
  note eff = attempt_once_effect[OF once]
  from eff(3) obtain evs1 where evs1: "trace w1 = trace w @ evs1"
    "schedule_of evs1 = (case st of Retry err \<Rightarrow> [Attempt attempt, Delay Backoff (1000 * (int attempt + 1))]
                                | _ \<Rightarrow> [Attempt attempt])"
    by blast
  have loop: "request_loop e ctx attempt lastError c w =
     (case (st, c1, w1) of
           (Return result, c', w') \<Rightarrow> (Inr result, c', w')
         | (Throw t, c', w') \<Rightarrow> (Inl t, c', w')
         | (Break err, c', w') \<Rightarrow> request_failed ctx err c' w'
         | (Retry err, c', w') \<Rightarrow> request_loop e ctx (Suc attempt) err c' w'
         | (Continue, c', w') \<Rightarrow> request_loop e ctx (Suc attempt) lastError c' w')"
    using "1.prems"(2) once by (subst request_loop.simps) simp
  show ?case
  proof (cases st)
    case (Retry err)
    with eff(5) have next_ok: "int (Suc attempt) < maxAttempts ctx" by auto
    from loop Retry "1.prems"(1) have rest: "request_loop e ctx (Suc attempt) err c1 w1 = (r, c', w')"
      by simp
    from "1.IH"(1)[OF "1.prems"(2) once[symmetric] Retry refl rest next_ok]
    obtain n evs where ih: "trace w' = trace w1 @ evs" "schedule_of evs = retry_schedule (Suc attempt) n"
      "int (Suc attempt + n) < maxAttempts ctx" "now w1 + sum_list (backoffs_of evs) \<le> now w'"
      by blast
    have bo: "backoffs_of evs1 = [1000 * (int attempt + 1)]"
    proof -
      have "backoffs_of (schedule_of evs1) = [1000 * (int attempt + 1)]"
        using evs1(2) Retry by simp
      then show ?thesis by simp
    qed
    show ?thesis
    proof (intro exI[of _ "Suc n"] exI[of _ "evs1 @ evs"] conjI)
      show "trace w' = trace w @ evs1 @ evs" using ih(1) evs1(1) by simp
      show "schedule_of (evs1 @ evs) = retry_schedule attempt (Suc n)"
        using ih(2) evs1(2) Retry by (simp add: retry_schedule_Suc)
      show "int (attempt + Suc n) < maxAttempts ctx" using ih(3) by simp
      have "now w + 1000 * (int attempt + 1) \<le> now w1" using eff(4) Retry by simp
      with ih(4) bo show "now w + sum_list (backoffs_of (evs1 @ evs)) \<le> now w'" by simp
    qed
  next
    case Continue
    with eff(1) show ?thesis by simp
  next
    case (Return v)
    with loop "1.prems"(1) have w': "w' = w1" by simp
    have "backoffs_of (schedule_of evs1) = []" using evs1(2) Return by simp
    then have bo: "backoffs_of evs1 = []" by simp
    show ?thesis
    proof (intro exI[of _ 0] exI[of _ evs1] conjI)
      show "trace w' = trace w @ evs1" using evs1(1) w' by simp
      show "schedule_of evs1 = retry_schedule attempt 0" using evs1(2) Return by simp
      show "int (attempt + 0) < maxAttempts ctx" using "1.prems"(2) by simp
      show "now w + sum_list (backoffs_of evs1) \<le> now w'" using eff(4) Return bo w' by simp
    qed
  next
    case (Throw t)
    with loop "1.prems"(1) have w': "w' = w1" by simp
    have "backoffs_of (schedule_of evs1) = []" using evs1(2) Throw by simp
    then have bo: "backoffs_of evs1 = []" by simp
    show ?thesis
    proof (intro exI[of _ 0] exI[of _ evs1] conjI)
      show "trace w' = trace w @ evs1" using evs1(1) w' by simp
      show "schedule_of evs1 = retry_schedule attempt 0" using evs1(2) Throw by simp
      show "int (attempt + 0) < maxAttempts ctx" using "1.prems"(2) by simp
      show "now w + sum_list (backoffs_of evs1) \<le> now w'" using eff(4) Throw bo w' by simp
    qed
  next
    case (Break err)
    with loop "1.prems"(1) have w': "w' = w1" by (simp add: request_failed_def)
    have "backoffs_of (schedule_of evs1) = []" using evs1(2) Break by simp
    then have bo: "backoffs_of evs1 = []" by simp
    show ?thesis
    proof (intro exI[of _ 0] exI[of _ evs1] conjI)
      show "trace w' = trace w @ evs1" using evs1(1) w' by simp
      show "schedule_of evs1 = retry_schedule attempt 0" using evs1(2) Break by simp
      show "int (attempt + 0) < maxAttempts ctx" using "1.prems"(2) by simp
      show "now w + sum_list (backoffs_of evs1) \<le> now w'" using eff(4) Break bo w' by simp
    qed
  qed
qed

lemma request_loop_unfold:
  assumes "attempt_once e c w ctx i = (st, c1, w1)" and "int i < maxAttempts ctx"
  shows "request_loop e ctx i le c w =
     (case st of
        Return v \<Rightarrow> (Inr v, c1, w1)
      | Throw t \<Rightarrow> (Inl t, c1, w1)
      | Break err \<Rightarrow> request_failed ctx err c1 w1
      | Retry err \<Rightarrow> request_loop e ctx (Suc i) err c1 w1
      | Continue \<Rightarrow> request_loop e ctx (Suc i) le c1 w1)"
  using assms by (subst request_loop.simps) (simp split: step.splits)

lemma request_loop_done:
  "\<not> int i < maxAttempts ctx \<Longrightarrow> request_loop e ctx i le c w = request_failed ctx le c w"
  by (subst request_loop.simps) simp

lemma request_loop_stats:
  assumes "request_loop e ctx i le c w = (r, c', w')"
  shows "case r of
           Inr v \<Rightarrow> stats c' = stats (count_success c w' (timer ctx))
         | Inl t \<Rightarrow> (stats c' = stats c \<and> stringify_throws (rq_data ctx))
              \<or> stats c' = (stats c)\<lparr>failedRequests := failedRequests (stats c) + 1\<rparr>
              \<or> stats c' = (stats c)\<lparr>rateLimitHits := rateLimitHits (stats c) + 1,
                                      failedRequests := failedRequests (stats c) + 1\<rparr>"
  using assms
proof (induction e ctx i le c w arbitrary: r c' w' rule: request_loop.induct)
  case (1 e ctx attempt lastError c w)
  show ?case
  proof (cases "int attempt < maxAttempts ctx")
    case False
    with "1.prems" have "request_failed ctx lastError c w = (r, c', w')"
      by (simp add: request_loop_done)
    then show ?thesis by (auto simp: request_failed_def)
  next
    case True
    obtain st c1 w1 where once: "attempt_once e c w ctx attempt = (st, c1, w1)"
      by (cases "attempt_once e c w ctx attempt") auto
    note eff = attempt_once_effect[OF once]
    note loop = request_loop_unfold[OF once True, of lastError]
    show ?thesis
    proof (cases st)
      case (Return v)
      with loop "1.prems" eff(2) show ?thesis by auto
    next
      case (Throw t)
      with loop "1.prems" eff(2) show ?thesis by auto
    next
      case (Break err)
      with loop "1.prems" have "request_failed ctx err c1 w1 = (r, c', w')" by simp
      with eff(2) Break show ?thesis by (auto simp: request_failed_def)
    next
      case (Retry err)
      with loop "1.prems" have rest: "request_loop e ctx (Suc attempt) err c1 w1 = (r, c', w')" by simp
      from eff(2) Retry have same: "stats c1 = stats c" by simp
      note ih = "1.IH"(1)[OF True once[symmetric] Retry refl rest]
      show ?thesis
      proof (cases r)
        case (Inl t)
        with ih same show ?thesis by simp
      next
        case (Inr v)
        with ih have "stats c' = stats (count_success c1 w' (timer ctx))" by simp
        also have "\<dots> = stats (count_success c w' (timer ctx))"
          using same by (rule count_success_cong)
        finally show ?thesis using Inr by simp
      qed
    next
      case Continue
      with eff(1) show ?thesis by simp
    qed
  qed
qed

lemma timer_request_ctx [simp]: "timer (request_ctx e c w m ep d opts) = now w"
  and data_request_ctx [simp]: "rq_data (request_ctx e c w m ep d opts) = d"
  and method_request_ctx [simp]: "rq_method (request_ctx e c w m ep d opts) = m"
  and endpoint_request_ctx [simp]: "rq_endpoint (request_ctx e c w m ep d opts) = ep"
  and maxAttempts_request_ctx [simp]: "maxAttempts (request_ctx e c w m ep d opts)
        = (if isRetryableBody d then configuredRetries c opts else 1)"
  by (simp_all add: request_ctx_def Let_def)

lemma configuredRetries_total [simp]:
  "configuredRetries (c\<lparr>stats := s\<rparr>) opts = configuredRetries c opts"
  by (simp add: configuredRetries_def split: option.splits)

lemma addAuthHeaders_stats [simp]:
  "addAuthHeaders e (c\<lparr>stats := s\<rparr>) hs = addAuthHeaders e c hs"
  unfolding addAuthHeaders_def by (simp cong: if_cong)

lemma request_ctx_stats [simp]:
  "request_ctx e (c\<lparr>stats := s\<rparr>) w m ep d opts = request_ctx e c w m ep d opts"
  unfolding request_ctx_def by (simp cong: if_cong split: option.splits)

lemma request_stats:
  assumes "request e c w m ep d opts = (r, c', w')"
  shows "totalRequests (stats c') = totalRequests (stats c) + 1"
    "authFailures (stats c') = authFailures (stats c)"
    "errors (stats c') = errors (stats c)"
    "rateLimitHits (stats c) \<le> rateLimitHits (stats c')"
    "case r of
       Inr v \<Rightarrow> successfulRequests (stats c') = successfulRequests (stats c) + 1
                \<and> failedRequests (stats c') = failedRequests (stats c)
                \<and> averageResponseTime (stats c') =
                    (averageResponseTime (stats c) * real (successfulRequests (stats c))
                       + real_of_int (now w' - now w)) / real (successfulRequests (stats c) + 1)
     | Inl t \<Rightarrow> successfulRequests (stats c') = successfulRequests (stats c)
                \<and> averageResponseTime (stats c') = averageResponseTime (stats c)
                \<and> (failedRequests (stats c') = failedRequests (stats c) + 1
                    \<or> failedRequests (stats c') = failedRequests (stats c) \<and> stringify_throws d)"
proof -
  define c0 where "c0 = c\<lparr>stats := (stats c)\<lparr>totalRequests := totalRequests (stats c) + 1\<rparr>\<rparr>"
  from assms have loop: "request_loop e (request_ctx e c0 w m ep d opts) 0
           (PlainError ''Error'' ''Unknown error'') c0 w = (r, c', w')"
    by (simp add: request_def c0_def Let_def)
  note st = request_loop_stats[OF loop]
  have c0: "totalRequests (stats c0) = totalRequests (stats c) + 1"
    "authFailures (stats c0) = authFailures (stats c)" "errors (stats c0) = errors (stats c)"
    "rateLimitHits (stats c0) = rateLimitHits (stats c)"
    "successfulRequests (stats c0) = successfulRequests (stats c)"
    "failedRequests (stats c0) = failedRequests (stats c)"
    "averageResponseTime (stats c0) = averageResponseTime (stats c)"
    by (simp_all add: c0_def)
  show "totalRequests (stats c') = totalRequests (stats c) + 1"
    using st c0 by (cases r) auto
  show "authFailures (stats c') = authFailures (stats c)"
    using st c0 by (cases r) auto
  show "errors (stats c') = errors (stats c)"
    using st c0 by (cases r) auto
  show "rateLimitHits (stats c) \<le> rateLimitHits (stats c')"
    using st c0 by (cases r) auto
  show "case r of
       Inr v \<Rightarrow> successfulRequests (stats c') = successfulRequests (stats c) + 1
                \<and> failedRequests (stats c') = failedRequests (stats c)
                \<and> averageResponseTime (stats c') =
                    (averageResponseTime (stats c) * real (successfulRequests (stats c))
                       + real_of_int (now w' - now w)) / real (successfulRequests (stats c) + 1)
     | Inl t \<Rightarrow> successfulRequests (stats c') = successfulRequests (stats c)
                \<and> averageResponseTime (stats c') = averageResponseTime (stats c)
                \<and> (failedRequests (stats c') = failedRequests (stats c) + 1
                    \<or> failedRequests (stats c') = failedRequests (stats c) \<and> stringify_throws d)"
  proof (cases r)
    case (Inl t)
    with st c0 show ?thesis by auto
  next
    case (Inr v)
    with st have "stats c' = stats (count_success c0 w' (now w))" by simp
    then show ?thesis using Inr c0 by (simp add: count_success_average)
  qed
qed

subsection \<open>Response parsing and the running average\<close>

lemmas pipeline_defs =
  request_def request_ctx_def configuredRetries_def attempt_once_def attempt_try_def
  attempt_catch_def rateLimit_def delay_def fetch_def ok_def parseResponse_def
  handleErrorResponseWithFallback_def tryIndexPhpFallback_def errorMessage_of_def
  first_truthy_def normalizeRequestError_def shouldRetryError_def request_failed_def
  count_success_def updateAverageResponseTime_def timer_end_def addAuthHeaders_def
  assign_def present_def str_of_def startsWith_def strip_leading_slashes_def
  str_includes_def toLowerCase_def lower_char_def show_int_def digit_char_def

lemmas demo_defs =
  demo_env_def demo_client_def demo_world_def demo_parse_def demo_url_def script_def
  answer_def failure_def no_options_def fresh_stats_def

lemmas run_defs = pipeline_defs demo_defs Let_def request_loop.simps new_events_def sublist_code
  show_nat.simps

lemmas construct_defs = new_WordPressClient_def validateAndSanitizeUrl_def demo_config_def
  demo_options_def private_host_def match_172_def strip_trailing_slash_def getAuthFromEnv_def
  demo_env_def demo_url_def present_def str_of_def toLowerCase_def lower_char_def fresh_stats_def
  Let_def


lemma run_requests_invariant:
  assumes "run_requests e c w calls = (rs, c', w')"
  shows "successfulRequests (stats c') = successfulRequests (stats c) + length (durations rs)
       \<and> averageResponseTime (stats c') * real (successfulRequests (stats c'))
           = averageResponseTime (stats c) * real (successfulRequests (stats c))
             + (\<Sum>d\<leftarrow>durations rs. real_of_int d)"
  using assms
proof (induction calls arbitrary: c w rs c' w')
  case Nil
  then show ?case by simp
next
  case (Cons k ks)
  define w0 where "w0 = w\<lparr>now := now w + int (idle k)\<rparr>"
  obtain r c1 w1 where req: "request e c w0 (call_method k) (call_endpoint k) (call_data k) (call_options k) = (r, c1, w1)"
    by (cases "request e c w0 (call_method k) (call_endpoint k) (call_data k) (call_options k)") auto
  obtain rs1 c2 w2 where rest: "run_requests e c1 w1 ks = (rs1, c2, w2)"
    by (cases "run_requests e c1 w1 ks") auto
  from Cons.prems req rest have eqs: "rs = (r, now w1 - now w0) # rs1" "c' = c2" "w' = w2"
    by (simp_all add: w0_def[symmetric] Let_def)
  from Cons.IH[OF rest]
  have ih1: "successfulRequests (stats c2) = successfulRequests (stats c1) + length (durations rs1)"
    and ih2: "averageResponseTime (stats c2) * real (successfulRequests (stats c2))
           = averageResponseTime (stats c1) * real (successfulRequests (stats c1))
             + (\<Sum>d\<leftarrow>durations rs1. real_of_int d)"
    by blast+
  note st = request_stats(5)[OF req]
  let ?n = "successfulRequests (stats c)"
  show ?case
  proof (cases r)
    case (Inl t)
    with st have same: "successfulRequests (stats c1) = ?n"
      "averageResponseTime (stats c1) = averageResponseTime (stats c)"
      by simp_all
    have d: "durations rs = durations rs1" using eqs(1) Inl by simp
    show ?thesis
      unfolding eqs(2) d using ih1 ih2 unfolding same by blast
  next
    case (Inr v)
    from st Inr have n1: "successfulRequests (stats c1) = ?n + 1"
      and avg: "averageResponseTime (stats c1) =
                    (averageResponseTime (stats c) * real ?n + real_of_int (now w1 - now w0)) / real (?n + 1)"
      by simp_all
    have step: "averageResponseTime (stats c1) * real (successfulRequests (stats c1))
            = averageResponseTime (stats c) * real ?n + real_of_int (now w1 - now w0)"
      unfolding n1 avg by simp
    have d: "durations rs = (now w1 - now w0) # durations rs1" using eqs(1) Inr by simp
    have "successfulRequests (stats c2) = ?n + length (durations rs)"
      using ih1 n1 d by simp
    moreover have "averageResponseTime (stats c2) * real (successfulRequests (stats c2))
           = averageResponseTime (stats c) * real ?n + (\<Sum>d\<leftarrow>durations rs. real_of_int d)"
      unfolding ih2 step d by simp
    ultimately show ?thesis unfolding eqs(2) by blast
  qed
qed


subsection \<open>Attempts and backoff\<close>

lemma request_loop_trace_done:
  assumes "request_loop e ctx i le c w = (r, c', w')" and "\<not> int i < maxAttempts ctx"
  shows "w' = w"
  using assms by (simp add: request_loop_done request_failed_def)

lemma request_loop_attempts:
  assumes "request_loop e ctx 0 le c w = (r, c', w')"
  shows "\<exists>k. attempts_of (new_events w w') = [0..<k] \<and> int k \<le> max 0 (maxAttempts ctx)
             \<and> (0 < maxAttempts ctx \<longrightarrow> 0 < k)"
proof (cases "0 < maxAttempts ctx")
  case False
  with assms have "w' = w" by (auto dest: request_loop_trace_done)
  then show ?thesis using False by (intro exI[of _ 0]) (simp add: new_events_def)
next
  case True
  then have "int 0 < maxAttempts ctx" by simp
  from request_loop_schedule[OF assms this]
  obtain n evs where *: "trace w' = trace w @ evs" "schedule_of evs = retry_schedule 0 n"
    "int (0 + n) < maxAttempts ctx"
    by blast
  have "attempts_of (schedule_of evs) = [0..<Suc n]"
    unfolding *(2) by (simp add: attempts_of_retry_schedule)
  then have "attempts_of (new_events w w') = [0..<Suc n]"
    using *(1) by simp
  then show ?thesis using *(3) True by (intro exI[of _ "Suc n"]) simp
qed

lemma request_trace:
  "request e c w m ep d opts = (r, c', w') \<Longrightarrow>
   request_loop e (request_ctx e c w m ep d opts) 0
     (PlainError ''Error'' ''Unknown error'')
     (c\<lparr>stats := (stats c)\<lparr>totalRequests := totalRequests (stats c) + 1\<rparr>\<rparr>) w = (r, c', w')"
  by (simp add: request_def Let_def)


text \<open>
  Claim C5.  In every call of \<open>request\<close> that has a positive attempt budget, the attempts and
  the backoff delays alternate: attempt \<open>i\<close> that is followed by another attempt is followed
  first by a delay of exactly \<open>1000 * (i + 1)\<close> milliseconds, so the delays are
  \<open>1000, 2000, ...\<close>, and the time that passes during the call is at least their sum.
\<close>

theorem backoff_schedule:
  assumes "request e c w m ep d opts = (r, c', w')"
    and "0 < maxAttempts (request_ctx e c w m ep d opts)"
  shows "\<exists>n. schedule_of (new_events w w') = retry_schedule 0 n
           \<and> backoffs_of (new_events w w') = map (\<lambda>i. 1000 * (int i + 1)) [0..<n]
           \<and> int n < maxAttempts (request_ctx e c w m ep d opts)
           \<and> sum_list (backoffs_of (new_events w w')) \<le> now w' - now w"
proof -
  from assms(2) have "int 0 < maxAttempts (request_ctx e c w m ep d opts)"
    by simp
  from request_loop_schedule[OF request_trace[OF assms(1)] this]
  obtain n evs where *: "trace w' = trace w @ evs" "schedule_of evs = retry_schedule 0 n"
    "int (0 + n) < maxAttempts (request_ctx e c w m ep d opts)" "now w + sum_list (backoffs_of evs) \<le> now w'"
    by blast
  have "backoffs_of (schedule_of evs) = map (\<lambda>i. 1000 * (int i + 1)) [0..<n]"
    unfolding *(2) by (simp add: backoffs_of_retry_schedule)
  then have "backoffs_of evs = map (\<lambda>i. 1000 * (int i + 1)) [0..<n]" by simp
  with * show ?thesis
    by (intro exI[of _ n]) simp
qed

subsection \<open>Errors thrown by fetch\<close>

lemma attachRequestBody_Inr:
  "\<not> stringify_throws d \<Longrightarrow>
   \<exists>fo'. attachRequestBody fo d = Inr fo' \<and> http_method fo' = http_method fo"
  by (cases d) (auto split: sum.splits)

lemma attempt_once_shape:
  assumes "\<not> stringify_throws (rq_data ctx)"
  obtains c1 w0 fo where
    "c1 = c\<lparr>lastRequestTime := now w0\<rparr>" "served w0 = served w" "now w \<le> now w0"
    "\<exists>evs. trace w0 = trace w @ Attempt i # evs \<and> schedule_of evs = [] \<and> fetches_of evs = []"
    "http_method fo = rq_method ctx"
    "attempt_once e c w ctx i =
       (case attempt_try e c1 w0 ctx fo of
          (Inr (Some v), c2, w2) \<Rightarrow> (Return v, c2, w2)
        | (Inr None, c2, w2) \<Rightarrow> (Continue, c2, w2)
        | (Inl t, c2, w2) \<Rightarrow> attempt_catch ctx i t c2 w2)"
proof -
  obtain c1 w0 where rl: "rateLimit c (w\<lparr>trace := trace w @ [Attempt i]\<rparr>) = (c1, w0)"
    by (cases "rateLimit c (w\<lparr>trace := trace w @ [Attempt i]\<rparr>)") auto
  let ?fo = "\<lparr>http_method = rq_method ctx, headers = baseHeaders ctx, body = None\<rparr>"
  obtain fo where fo: "(if data_truthy (rq_data ctx) \<and> rq_method ctx \<in> set [''POST'', ''PUT'', ''PATCH'']
                    then attachRequestBody ?fo (rq_data ctx) else Inr ?fo) = Inr fo"
    "http_method fo = rq_method ctx"
    using attachRequestBody_Inr[OF assms, of ?fo] by (cases "data_truthy (rq_data ctx) \<and> rq_method ctx \<in> set [''POST'', ''PUT'', ''PATCH'']") auto
  note eff = rateLimit_effect[OF rl]
  have 1: "c1 = c\<lparr>lastRequestTime := now w0\<rparr>" using eff(1) by simp
  have 2: "served w0 = served w" using eff(2) by simp
  have 3: "now w \<le> now w0" using eff(3) by simp
  have 4: "\<exists>evs. trace w0 = trace w @ Attempt i # evs \<and> schedule_of evs = [] \<and> fetches_of evs = []"
    using eff(4) by auto
  have 5: "attempt_once e c w ctx i =
       (case attempt_try e c1 w0 ctx fo of
          (Inr (Some v), c2, w2) \<Rightarrow> (Return v, c2, w2)
        | (Inr None, c2, w2) \<Rightarrow> (Continue, c2, w2)
        | (Inl t, c2, w2) \<Rightarrow> attempt_catch ctx i t c2 w2)"
    unfolding attempt_once_def Let_def rl using fo(1) by simp
  from that[OF 1 2 3 4 fo(2) 5] show thesis .
qed

lemma toLowerCase_append [simp]: "toLowerCase (a @ b) = toLowerCase a @ toLowerCase b"
  by (simp add: toLowerCase_def)

lemma shouldRetryError_iff:
  "shouldRetryError err \<longleftrightarrow>
     \<not> str_includes (toLowerCase (error_message err)) ''401''
     \<and> \<not> str_includes (toLowerCase (error_message err)) ''403''
     \<and> \<not> str_includes (toLowerCase (error_message err)) ''timeout''
     \<and> \<not> str_includes (toLowerCase (error_message err)) ''network connection lost''"
  by (simp add: shouldRetryError_def Let_def)

lemma timeout_not_retried:
  "\<not> shouldRetryError (PlainError n (''Request timeout after '' @ x @ ''ms''))"
proof -
  have "toLowerCase (''Request timeout after '' @ x @ ''ms'')
          = ''request '' @ ''timeout'' @ ('' after '' @ toLowerCase x @ ''ms'')"
    by (simp add: toLowerCase_def lower_char_def)
  then have "str_includes (toLowerCase (''Request timeout after '' @ x @ ''ms'')) ''timeout''"
    unfolding str_includes_def by (simp only: sublist_appendI)
  then show ?thesis by (simp add: shouldRetryError_iff)
qed

lemma connection_lost_not_retried:
  "\<not> shouldRetryError (PlainError n (''Network connection lost during request: '' @ x))"
proof -
  have "toLowerCase (''Network connection lost during request: '' @ x)
          = [] @ ''network connection lost'' @ ('' during request: '' @ toLowerCase x)"
    by (simp add: toLowerCase_def lower_char_def)
  then have "str_includes (toLowerCase (''Network connection lost during request: '' @ x))
               ''network connection lost''"
    unfolding str_includes_def by (simp only: sublist_appendI)
  then show ?thesis by (simp add: shouldRetryError_iff)
qed

lemma classified_not_retried:
  assumes "error_name err = ''AbortError'' \<or> str_includes (error_message err) ''socket hang up''
             \<or> str_includes (error_message err) ''ECONNRESET''"
  shows "\<not> shouldRetryError (normalizeRequestError (Err err) tmo)"
proof (cases "error_name err = ''AbortError''")
  case True
  then have "normalizeRequestError (Err err) tmo
               = PlainError ''Error'' (''Request timeout after '' @ show_nat tmo @ ''ms'')"
    by (simp add: normalizeRequestError_def)
  then show ?thesis by (simp only: timeout_not_retried not_False_eq_True)
next
  case False
  with assms have "normalizeRequestError (Err err) tmo
               = PlainError ''Error'' (''Network connection lost during request: '' @ error_message err)"
    by (simp add: normalizeRequestError_def)
  then show ?thesis by (simp only: connection_lost_not_retried not_False_eq_True)
qed

lemma is_RateLimitError_iff: "is_RateLimitError err \<longleftrightarrow> (\<exists>m ra. err = RateLimitError m ra)"
  by (cases err) auto

lemma attempt_once_rejects:
  assumes "\<not> stringify_throws (rq_data ctx)" and "outcome (net e (served w)) = Rejects t"
  shows "\<exists>c1 w1. attempt_once e c w ctx i = attempt_catch ctx i t c1 w1
           \<and> served w1 = Suc (served w) \<and> stats c1 = stats c \<and> now w \<le> now w1
           \<and> (\<exists>evs. trace w1 = trace w @ evs \<and> schedule_of evs = [Attempt i])"
proof -
  obtain c1 w0 fo where s: "c1 = c\<lparr>lastRequestTime := now w0\<rparr>" "served w0 = served w" "now w \<le> now w0"
    "\<exists>evs. trace w0 = trace w @ Attempt i # evs \<and> schedule_of evs = [] \<and> fetches_of evs = []"
    "http_method fo = rq_method ctx"
    "attempt_once e c w ctx i =
       (case attempt_try e c1 w0 ctx fo of
          (Inr (Some v), c2, w2) \<Rightarrow> (Return v, c2, w2)
        | (Inr None, c2, w2) \<Rightarrow> (Continue, c2, w2)
        | (Inl t, c2, w2) \<Rightarrow> attempt_catch ctx i t c2 w2)"
    by (rule attempt_once_shape[OF assms(1), where c=c and w=w and i=i and e=e]) blast
  have "attempt_try e c1 w0 ctx fo = (Inl t, c1, snd (fetch e w0 (rq_url ctx) fo))"
    using assms(2) s(2) by (simp add: attempt_try_def fetch_def Let_def)
  with s(6) have "attempt_once e c w ctx i = attempt_catch ctx i t c1 (snd (fetch e w0 (rq_url ctx) fo))"
    by simp
  moreover have "served (snd (fetch e w0 (rq_url ctx) fo)) = Suc (served w)" using s(2) by simp
  moreover have "stats c1 = stats c" using s(1) by simp
  moreover have "now w \<le> now (snd (fetch e w0 (rq_url ctx) fo))" using s(3) by simp
  moreover have "\<exists>evs. trace (snd (fetch e w0 (rq_url ctx) fo)) = trace w @ evs \<and> schedule_of evs = [Attempt i]"
    using s(4) by auto
  ultimately show ?thesis by blast
qed


subsection \<open>Rate limiting by the server\<close>

lemma attempt_once_429:
  assumes "\<not> stringify_throws (rq_data ctx)" and "outcome (net e (served w)) = Resolves r"
    and "status r = 429" and "body_text r = Inr txt"
  shows "\<exists>c1 w1. attempt_once e c w ctx i
             = (Break (RateLimitError (to_str (errorMessage_of e r txt)) (now w1 + 60000)), c1, w1)
           \<and> served w1 = Suc (served w)
           \<and> stats c1 = (stats c)\<lparr>rateLimitHits := rateLimitHits (stats c) + 1\<rparr>
           \<and> (\<exists>evs. trace w1 = trace w @ evs \<and> schedule_of evs = [Attempt i])"
proof -
  obtain c1 w0 fo where s: "c1 = c\<lparr>lastRequestTime := now w0\<rparr>" "served w0 = served w" "now w \<le> now w0"
    "\<exists>evs. trace w0 = trace w @ Attempt i # evs \<and> schedule_of evs = [] \<and> fetches_of evs = []"
    "http_method fo = rq_method ctx"
    "attempt_once e c w ctx i =
       (case attempt_try e c1 w0 ctx fo of
          (Inr (Some v), c2, w2) \<Rightarrow> (Return v, c2, w2)
        | (Inr None, c2, w2) \<Rightarrow> (Continue, c2, w2)
        | (Inl t, c2, w2) \<Rightarrow> attempt_catch ctx i t c2 w2)"
    by (rule attempt_once_shape[OF assms(1), where c=c and w=w and i=i and e=e]) blast
  let ?wf = "snd (fetch e w0 (rq_url ctx) fo)"
  let ?err = "RateLimitError (to_str (errorMessage_of e r txt)) (now ?wf + 60000)"
  let ?c2 = "c1\<lparr>stats := (stats c1)\<lparr>rateLimitHits := rateLimitHits (stats c1) + 1\<rparr>\<rparr>"
  have nok: "\<not> ok r" using assms(3) by (simp add: ok_def)
  have "handleErrorResponseWithFallback e c1 ?wf r (rq_url ctx) (rq_endpoint ctx) fo (timer ctx)
          = (Inl (Err ?err), ?c2, ?wf)"
    using assms(3,4) by (simp add: handleErrorResponseWithFallback_def Let_def)
  then have "attempt_try e c1 w0 ctx fo = (Inl (Err ?err), ?c2, ?wf)"
    using assms(2) s(2) nok by (simp add: attempt_try_def fetch_def Let_def)
  moreover have "attempt_catch ctx i (Err ?err) ?c2 ?wf = (Break ?err, ?c2, ?wf)"
    by (simp add: attempt_catch_def)
  ultimately have "attempt_once e c w ctx i = (Break ?err, ?c2, ?wf)"
    using s(6) by simp
  moreover have "served ?wf = Suc (served w)" using s(2) by simp
  moreover have "stats ?c2 = (stats c)\<lparr>rateLimitHits := rateLimitHits (stats c) + 1\<rparr>"
    using s(1) by simp
  moreover have "\<exists>evs. trace ?wf = trace w @ evs \<and> schedule_of evs = [Attempt i]"
    using s(4) by auto
  ultimately show ?thesis by blast
qed

text \<open>
  Claim C1, as the code has it.  When an attempt of \<open>request\<close> receives a response with status
  429 whose body can be read, \<open>handleErrorResponseWithFallback\<close> increments \<open>rateLimitHits\<close>
  and throws a \<open>RateLimitError\<close> with the retry-after estimate \<open>now + 60000\<close>; the \<open>catch\<close>
  block of \<open>request\<close> leaves the loop with it, whatever attempts remain, so that no further
  attempt and no further fetch is made.  The call then fails as it does after any other last
  error: \<open>failedRequests\<close> is incremented and the caller receives a \<open>WordPressAPIError\<close>
  whose message is \<open>Request failed after N attempt(s): \<close> followed by the message of the
  \<open>RateLimitError\<close>.
\<close>

theorem rate_limit_response_stops_retries:
  assumes "int i < maxAttempts ctx" and "\<not> stringify_throws (rq_data ctx)"
    and "outcome (net e (served w)) = Resolves r" and "status r = 429" and "body_text r = Inr txt"
  shows "\<exists>c' w'. request_loop e ctx i lastError c w
             = (Inl (Err (WordPressAPIError
                  (''Request failed after '' @ show_int (maxAttempts ctx) @ '' attempt''
                   @ (if maxAttempts ctx = 1 then [] else ''s'') @ '': ''
                   @ to_str (errorMessage_of e r txt)) None)), c', w')
           \<and> fst (attempt_once e c w ctx i)
               = Break (RateLimitError (to_str (errorMessage_of e r txt)) (now w' + 60000))
           \<and> rateLimitHits (stats c') = rateLimitHits (stats c) + 1
           \<and> failedRequests (stats c') = failedRequests (stats c) + 1
           \<and> served w' = Suc (served w)
           \<and> attempts_of (new_events w w') = [i]"
proof -
  from attempt_once_429[OF assms(2-5), of c i]
  obtain c1 w1 evs where once: "attempt_once e c w ctx i
             = (Break (RateLimitError (to_str (errorMessage_of e r txt)) (now w1 + 60000)), c1, w1)"
    and w1: "served w1 = Suc (served w)" "trace w1 = trace w @ evs" "schedule_of evs = [Attempt i]"
    and c1: "stats c1 = (stats c)\<lparr>rateLimitHits := rateLimitHits (stats c) + 1\<rparr>"
    by blast
  let ?c' = "c1\<lparr>stats := (stats c1)\<lparr>failedRequests := failedRequests (stats c1) + 1\<rparr>\<rparr>"
  from request_loop_unfold[OF once assms(1), of lastError]
  have "request_loop e ctx i lastError c w
             = (Inl (Err (WordPressAPIError
                  (''Request failed after '' @ show_int (maxAttempts ctx) @ '' attempt''
                   @ (if maxAttempts ctx = 1 then [] else ''s'') @ '': ''
                   @ to_str (errorMessage_of e r txt)) None)), ?c', w1)"
    by (simp add: request_failed_def)
  moreover have "fst (attempt_once e c w ctx i)
               = Break (RateLimitError (to_str (errorMessage_of e r txt)) (now w1 + 60000))"
    using once by simp
  moreover have "rateLimitHits (stats ?c') = rateLimitHits (stats c) + 1"
    "failedRequests (stats ?c') = failedRequests (stats c) + 1"
    using c1 by simp_all
  moreover have "attempts_of (schedule_of evs) = [i]" using w1(3) by simp
  then have "attempts_of (new_events w w1) = [i]" using w1(2) by simp
  ultimately show ?thesis using w1(1) by blast
qed

subsection \<open>The permalink fallback\<close>

lemma handle_404:
  assumes "status r = 404" and "body_text r = Inr txt" and "str_includes u ''/wp-json/wp/v2''"
    and "js_includes (errorMessage_of e r txt) beitraege = Inr found"
    and "\<not> (found \<and> str_includes ep ''media'')"
  shows "handleErrorResponseWithFallback e c w r u ep fo tm =
     (case tryIndexPhpFallback e c w u fo tm of
        (Some v, c', w') \<Rightarrow> (Inr (Some v), c', w')
      | (None, c', w') \<Rightarrow>
          (Inl (Err (WordPressAPIError (to_str (errorMessage_of e r txt)) (Some 404))), c', w'))"
  using assms unfolding handleErrorResponseWithFallback_def Let_def
  by (simp split: prod.splits option.splits)

lemma tryIndexPhpFallback_eval:
  assumes "url_parse e u = Some p"
  shows "tryIndexPhpFallback e c w u fo tm =
     (let fb = origin p @ ''/index.php?rest_route=/wp/v2'' @ replace_first (pathname p) ''/wp-json/wp/v2'' []
                 @ (if searchParams p \<noteq> [] then ''&'' @ searchParams p else []);
          w' = snd (fetch e w fb fo)
      in case outcome (net e (served w)) of
           Rejects t \<Rightarrow> (None, c, w')
         | Resolves fr \<Rightarrow>
             if \<not> ok fr then (None, c, w')
             else (case body_text fr of
                     Inl t \<Rightarrow> (None, c, w')
                   | Inr ft \<Rightarrow>
                       if ft = [] then (Some JNull, count_success c w' tm, w')
                       else (case json_parse e ft of
                               Inl perr \<Rightarrow> (None, c, w')
                             | Inr j \<Rightarrow> (Some j, count_success c w' tm, w'))))"
  using assms unfolding tryIndexPhpFallback_def Let_def fetch_def
  by (simp split: fetch_outcome.splits sum.splits)

lemma surfaced_message:
  assumes "attempt_catch ctx i (Err (WordPressAPIError m s)) c w = (Break le, c', w')"
  shows "\<exists>pre. error_message le = pre @ m"
  using assms unfolding attempt_catch_def Let_def normalizeRequestError_def
  by (auto split: if_splits)



subsection \<open>The counters\<close>

lemma counters_le_refl [simp]: "counters_le s s"
  by (simp add: counters_le_def)

lemma counters_le_trans: "counters_le a b \<Longrightarrow> counters_le b c \<Longrightarrow> counters_le a c"
  by (auto simp: counters_le_def)

lemma request_counters:
  assumes "request e c w m ep d opts = (r, c', w')"
  shows "counters_le (stats c) (stats c')"
  using request_stats[OF assms] by (cases r) (auto simp: counters_le_def)

lemma authenticateWithBasic_counters:
  assumes "authenticateWithBasic e c w = (r, c', w')"
  shows "counters_le (stats c) (stats c')"
proof -
  obtain r1 c1 w1 where req: "request e c w ''GET'' ''users/me'' DNull no_options = (r1, c1, w1)"
    by (cases "request e c w ''GET'' ''users/me'' DNull no_options") auto
  from assms req have "stats c' = stats c \<or> stats c' = stats c1"
    unfolding authenticateWithBasic_def Let_def by (auto split: if_splits sum.splits)
  with request_counters[OF req] show ?thesis by auto
qed

lemma authenticateWithJWT_stats:
  assumes "authenticateWithJWT e c w = (r, c', w')"
  shows "stats c' = stats c"
  using assms unfolding authenticateWithJWT_def Let_def
  by (auto split: if_splits sum.splits prod.splits fetch_outcome.splits)

lemma authenticateWithCookie_stats:
  assumes "authenticateWithCookie e c w = (r, c', w')"
  shows "stats c' = stats c"
  using assms unfolding authenticateWithCookie_def by (auto split: if_splits)

lemma authenticate_counters:
  assumes "authenticate e c w = (r, c', w')"
  shows "counters_le (stats c) (stats c')"
proof -
  let ?m = "map_option toLowerCase (auth_method (auth c))"
  define inner where "inner =
            (if ?m = Some ''app-password'' \<or> ?m = Some ''basic'' then authenticateWithBasic e c w
             else if ?m = Some ''jwt'' then authenticateWithJWT e c w
             else if ?m = Some ''cookie'' then authenticateWithCookie e c w
             else if ?m = Some ''api-key'' then (Inr True, c\<lparr>authenticated := True\<rparr>, w)
             else (Inl (Err (PlainError ''Error''
                     (''Unsupported authentication method: ''
                      @ (case ?m of None \<Rightarrow> ''undefined'' | Some n \<Rightarrow> n)))), c, w))"
  obtain r1 c1 w1 where inner: "inner = (r1, c1, w1)" by (cases inner) auto
  have 1: "counters_le (stats c) (stats c1)"
    using inner unfolding inner_def
    by (auto split: if_splits dest: authenticateWithBasic_counters authenticateWithJWT_stats
        authenticateWithCookie_stats)
  have "authenticate e c w =
          (case inner of
             (Inl t, c', w') \<Rightarrow>
               (Inl t, c'\<lparr>stats := (stats c')\<lparr>authFailures := authFailures (stats c') + 1\<rparr>\<rparr>, w')
           | (Inr b, c', w') \<Rightarrow> (Inr b, c', w'))"
    unfolding authenticate_def inner_def Let_def ..
  with assms inner have "stats c' = stats c1
      \<or> stats c' = (stats c1)\<lparr>authFailures := authFailures (stats c1) + 1\<rparr>"
    by (auto split: sum.splits)
  then have 2: "counters_le (stats c1) (stats c')"
    by (auto simp: counters_le_def)
  from counters_le_trans[OF 1 2] show ?thesis .
qed

lemma perform_counters:
  "counters_le (stats (fst cw)) (stats (fst (perform e op cw)))"
proof (cases cw)
  case (Pair c w)
  show ?thesis
  proof (cases op)
    case (OpRequest m ep d opts)
    obtain r c' w' where "request e c w m ep d opts = (r, c', w')"
      by (cases "request e c w m ep d opts") auto
    with request_counters[OF this] Pair OpRequest show ?thesis by simp
  next
    case OpAuthenticate
    obtain r c' w' where "authenticate e c w = (r, c', w')"
      by (cases "authenticate e c w") auto
    with authenticate_counters[OF this] Pair OpAuthenticate show ?thesis by simp
  next
    case OpInitialize
    obtain r c' w' where "authenticate e c w = (r, c', w')"
      by (cases "authenticate e c w") auto
    with authenticate_counters[OF this] Pair OpInitialize show ?thesis by simp
  next
    case OpDisconnect
    with Pair show ?thesis by (simp add: disconnect_def)
  next
    case (OpIdle ms)
    with Pair show ?thesis by simp
  qed
qed

lemma perform_all_counters:
  "counters_le (stats (fst cw)) (stats (fst (perform_all e ops cw)))"
proof (induction ops arbitrary: cw)
  case Nil
  then show ?case by (simp add: perform_all_def)
next
  case (Cons op ops)
  have "perform_all e (op # ops) cw = perform_all e ops (perform e op cw)"
    by (simp add: perform_all_def)
  with counters_le_trans[OF perform_counters[of cw e op] Cons.IH[of "perform e op cw"]]
  show ?case by simp
qed

text \<open>
  Claim C9.  Through every sequence of operations on a client (calls of \<open>request\<close> with any
  arguments, \<open>authenticate\<close>, \<open>initialize\<close>, \<open>disconnect\<close>, and the passing of time), whatever the
  network answers, none of the counters \<open>totalRequests\<close>, \<open>successfulRequests\<close>,
  \<open>failedRequests\<close>, \<open>rateLimitHits\<close> and \<open>authFailures\<close> ever decreases.
\<close>

theorem counters_never_decrease:
  "totalRequests (stats c) \<le> totalRequests (stats (fst (perform_all e ops (c, w))))
   \<and> successfulRequests (stats c) \<le> successfulRequests (stats (fst (perform_all e ops (c, w))))
   \<and> failedRequests (stats c) \<le> failedRequests (stats (fst (perform_all e ops (c, w))))
   \<and> rateLimitHits (stats c) \<le> rateLimitHits (stats (fst (perform_all e ops (c, w))))
   \<and> authFailures (stats c) \<le> authFailures (stats (fst (perform_all e ops (c, w))))"
  using perform_all_counters[of "(c, w)" e ops] by (simp add: counters_le_def)

text \<open>
  Claim C10 at the input where the code departs from it: \<open>request("POST", "posts", data)\<close> with
  a \<open>data\<close> object that refers to itself.  \<open>totalRequests\<close> is incremented,
  \<open>attachRequestBody\<close> runs before the \<open>try\<close> block and \<open>JSON.stringify\<close> throws there, so the
  \<open>TypeError\<close> leaves \<open>request\<close> without passing the statement that counts failed requests:
  the call throws, and neither \<open>failedRequests\<close> nor \<open>successfulRequests\<close> has moved.
\<close>

theorem failure_outside_the_try_block_is_not_counted:
  "fst (request (demo_env []) demo_client demo_world ''POST'' ''posts'' cyclic_object no_options)
     = Inl (Err (PlainError ''TypeError'' ''Converting circular structure to JSON''))
   \<and> totalRequests (stats (fst (snd
        (request (demo_env []) demo_client demo_world ''POST'' ''posts'' cyclic_object no_options)))) = 1
   \<and> failedRequests (stats (fst (snd
        (request (demo_env []) demo_client demo_world ''POST'' ''posts'' cyclic_object no_options)))) = 0
   \<and> successfulRequests (stats (fst (snd
        (request (demo_env []) demo_client demo_world ''POST'' ''posts'' cyclic_object no_options)))) = 0"
  by (simp add: pipeline_defs demo_defs Let_def request_loop.simps cyclic_object_def)

subsection \<open>The base URL\<close>

lemma match_172_range:
  assumes "16 \<le> n" and "n \<le> 31"
  shows "match_172 (toLowerCase (''172.'' @ show_nat n @ ''.'' @ rest))"
proof -
  from assms have "n = 16 \<or> n = 17 \<or> n = 18 \<or> n = 19 \<or> n = 20 \<or> n = 21 \<or> n = 22 \<or> n = 23
      \<or> n = 24 \<or> n = 25 \<or> n = 26 \<or> n = 27 \<or> n = 28 \<or> n = 29 \<or> n = 30 \<or> n = 31"
    by arith
  then show ?thesis
    by (elim disjE)
       (simp_all add: match_172_def show_nat.simps digit_char_def toLowerCase_def lower_char_def)
qed

lemma toLowerCase_digits:
  "toLowerCase (''10.'' @ rest) = ''10.'' @ toLowerCase rest"
  "toLowerCase (''192.168.'' @ rest) = ''192.168.'' @ toLowerCase rest"
  "toLowerCase ''127.0.0.1'' = ''127.0.0.1''" "toLowerCase ''::1'' = ''::1''"
  by (simp_all add: toLowerCase_def lower_char_def)

lemma listed_host_private:
  assumes "toLowerCase h = ''localhost'' \<or> h = ''127.0.0.1'' \<or> h = ''::1''
           \<or> prefix ''10.'' h \<or> prefix ''192.168.'' h
           \<or> (\<exists>n rest. 16 \<le> n \<and> n \<le> 31 \<and> h = ''172.'' @ show_nat n @ ''.'' @ rest)"
  shows "private_host (toLowerCase h)"
proof -
  consider "toLowerCase h = ''localhost''" | "h = ''127.0.0.1''" | "h = ''::1''"
    | rest where "h = ''10.'' @ rest" | rest where "h = ''192.168.'' @ rest"
    | n rest where "16 \<le> n" "n \<le> 31" "h = ''172.'' @ show_nat n @ ''.'' @ rest"
    using assms by (auto simp: prefix_def)
  then show ?thesis
  proof cases
    case 1 then show ?thesis by (simp add: private_host_def)
  next
    case 2 then show ?thesis by (simp only: toLowerCase_digits private_host_def) simp
  next
    case 3 then show ?thesis by (simp only: toLowerCase_digits private_host_def) simp
  next
    case (4 rest)
    then have "prefix ''10.'' (toLowerCase h)" by (simp only: toLowerCase_digits prefixI)
    then show ?thesis by (simp add: private_host_def)
  next
    case (5 rest)
    then have "prefix ''192.168.'' (toLowerCase h)" by (simp only: toLowerCase_digits prefixI)
    then show ?thesis by (simp add: private_host_def)
  next
    case (6 n rest)
    then have "match_172 (toLowerCase h)" using match_172_range by simp
    then show ?thesis by (simp add: private_host_def)
  qed
qed

lemma set_strip_trailing_slash: "set (strip_trailing_slash s) \<subseteq> set s"
  by (auto simp: strip_trailing_slash_def dest: in_set_butlastD)

lemma strip_trailing_slash_rev:
  "strip_trailing_slash s =
     rev (case rev s of [] \<Rightarrow> [] | c # r \<Rightarrow> if c = CHR ''/'' then r else c # r)"
  by (cases s rule: rev_cases) (simp_all add: strip_trailing_slash_def)

lemma strip_twice_no_slash:
  assumes "\<not> suffix ''///'' s"
  shows "\<not> suffix ''/'' (strip_trailing_slash (strip_trailing_slash s))"
proof -
  from assms have "\<not> prefix ''///'' (rev s)" by (simp add: suffix_to_prefix)
  then have "\<not> prefix ''/'' (rev (strip_trailing_slash (strip_trailing_slash s)))"
    unfolding strip_trailing_slash_rev[of s] strip_trailing_slash_rev[of "rev _"]
    by (cases "rev s") (auto split: list.splits if_splits)
  then show ?thesis by (simp add: suffix_to_prefix)
qed

lemma validateAndSanitizeUrl_Inr:
  assumes "validateAndSanitizeUrl e production u = Inr b"
  shows "\<exists>p. url_parse e u = Some p \<and> b = strip_trailing_slash (protocol p @ ''//'' @ host p @ pathname p)
            \<and> \<not> (production \<and> private_host (toLowerCase (hostname p)))"
  using assms unfolding validateAndSanitizeUrl_def
  by (auto split: if_splits option.splits)

lemma new_WordPressClient_Inr:
  assumes "new_WordPressClient e cfg options = Inr cl"
  shows "\<exists>u p. url_parse e u = Some p
            \<and> baseUrl cl = strip_trailing_slash (strip_trailing_slash (protocol p @ ''//'' @ host p @ pathname p))
            \<and> apiUrl cl = baseUrl cl @ ''/wp-json/wp/v2'' \<and> stats cl = fresh_stats"
proof -
  let ?b0 = "if present (o_baseUrl options) then str_of (o_baseUrl options)
                else if present (siteUrl cfg) then str_of (siteUrl cfg) else []"
  from assms obtain b where b: "validateAndSanitizeUrl e (isProduction cfg) ?b0 = Inr b"
    unfolding new_WordPressClient_def Let_def by (auto split: sum.splits)
  with assms have "baseUrl cl = strip_trailing_slash b" "apiUrl cl = baseUrl cl @ ''/wp-json/wp/v2''"
    "stats cl = fresh_stats"
    unfolding new_WordPressClient_def Let_def by (auto split: if_splits)
  with validateAndSanitizeUrl_Inr[OF b] show ?thesis by blast
qed


subsection \<open>Instances\<close>


lemma two_calls_run:
  "run_requests (demo_env [answer 200 ''OK'' [] 30, answer 200 ''OK'' ''7'' 50]) demo_client demo_world two_calls
     = ([(Inr JNull, 30), (Inr (JNum 7), 50)],
        snd (run_requests (demo_env [answer 200 ''OK'' [] 30, answer 200 ''OK'' ''7'' 50]) demo_client demo_world two_calls))"
  by (simp add: two_calls_def pipeline_defs demo_defs Let_def request_loop.simps)



text \<open>Claim C5 on a call that succeeds at its third attempt: delays of 1000 and 2000
  milliseconds, and at least 3000 milliseconds elapsed.\<close>

theorem backoff_schedule_witness:
  "0 < maxAttempts (request_ctx (demo_env recovery) demo_client demo_world ''GET'' ''posts'' DNull no_options)
   \<and> fst (request (demo_env recovery) demo_client demo_world ''GET'' ''posts'' DNull no_options) = Inr (JNum 7)
   \<and> schedule_of (new_events demo_world (snd (snd
         (request (demo_env recovery) demo_client demo_world ''GET'' ''posts'' DNull no_options))))
       = [Attempt 0, Delay Backoff 1000, Attempt 1, Delay Backoff 2000, Attempt 2]
   \<and> 3000 \<le> now (snd (snd (request (demo_env recovery) demo_client demo_world ''GET'' ''posts'' DNull no_options)))
              - now demo_world"
proof -
  let ?run = "request (demo_env recovery) demo_client demo_world ''GET'' ''posts'' DNull no_options"
  have run: "?run = (fst ?run, fst (snd ?run), snd (snd ?run))" by simp
  have pos: "0 < maxAttempts (request_ctx (demo_env recovery) demo_client demo_world ''GET'' ''posts'' DNull no_options)"
    by (simp add: configuredRetries_def demo_client_def no_options_def)
  have res: "fst ?run = Inr (JNum 7)" by (simp add: run_defs recovery_def)
  have sched: "schedule_of (new_events demo_world (snd (snd ?run)))
       = [Attempt 0, Delay Backoff 1000, Attempt 1, Delay Backoff 2000, Attempt 2]"
    by (simp add: run_defs recovery_def)
  then have "backoffs_of (schedule_of (new_events demo_world (snd (snd ?run)))) = [1000, 2000]"
    by simp
  then have bo: "backoffs_of (new_events demo_world (snd (snd ?run))) = [1000, 2000]"
    by simp
  from backoff_schedule[OF run pos]
  have "sum_list (backoffs_of (new_events demo_world (snd (snd ?run)))) \<le> now (snd (snd ?run)) - now demo_world"
    by blast
  with bo have "3000 \<le> now (snd (snd ?run)) - now demo_world" by simp
  with pos res sched show ?thesis by blast
qed

text \<open>Claim C1 as stated fails: on a 429 response the caller receives a \<open>WordPressAPIError\<close>,
  not a \<open>RateLimitError\<close>.\<close>

theorem rate_limit_error_wrapped_counterexample:
  "outcome (net (demo_env rate_limited) 0)
     = Resolves \<lparr>status = 429, statusText = ''Too Many Requests'', body_text = Inr ''slow down''\<rparr>
   \<and> fst (request (demo_env rate_limited) demo_client demo_world ''GET'' ''posts'' DNull no_options)
     = Inl (Err (WordPressAPIError ''Request failed after 3 attempts: slow down'' None))"
  by (simp add: run_defs rate_limited_def)


text \<open>The amended claim C1 on a 429 response to the first of three attempts.\<close>

theorem rate_limit_response_stops_retries_witness:
  "int 0 < maxAttempts (demo_ctx ''posts'')
   \<and> \<not> stringify_throws (rq_data (demo_ctx ''posts''))
   \<and> outcome (net (demo_env rate_limited) (served demo_world))
       = Resolves \<lparr>status = 429, statusText = ''Too Many Requests'', body_text = Inr ''slow down''\<rparr>
   \<and> fst (request_loop (demo_env rate_limited) (demo_ctx ''posts'') 0 (PlainError ''Error'' ''Unknown error'')
            demo_client demo_world)
       = Inl (Err (WordPressAPIError ''Request failed after 3 attempts: slow down'' None))
   \<and> rateLimitHits (stats (fst (snd (request_loop (demo_env rate_limited) (demo_ctx ''posts'') 0
            (PlainError ''Error'' ''Unknown error'') demo_client demo_world)))) = 1
   \<and> served (snd (snd (request_loop (demo_env rate_limited) (demo_ctx ''posts'') 0
            (PlainError ''Error'' ''Unknown error'') demo_client demo_world))) = 1
   \<and> attempts_of (new_events demo_world (snd (snd (request_loop (demo_env rate_limited)
            (demo_ctx ''posts'') 0 (PlainError ''Error'' ''Unknown error'') demo_client demo_world)))) = [0]"
proof -
  let ?e = "demo_env rate_limited"
  let ?r = "\<lparr>status = 429, statusText = ''Too Many Requests'', body_text = Inr ''slow down''\<rparr>"
  let ?loop = "request_loop ?e (demo_ctx ''posts'') 0 (PlainError ''Error'' ''Unknown error'')
                 demo_client demo_world"
  have h1: "int 0 < maxAttempts (demo_ctx ''posts'')"
    by (simp add: demo_ctx_def configuredRetries_def demo_client_def no_options_def)
  have h2: "\<not> stringify_throws (rq_data (demo_ctx ''posts''))" by (simp add: demo_ctx_def)
  have h3: "outcome (net ?e (served demo_world)) = Resolves ?r" by (simp add: demo_defs rate_limited_def)
  have h4: "status ?r = 429" and h5: "body_text ?r = Inr ''slow down''" by simp_all
  have m: "to_str (errorMessage_of ?e ?r ''slow down'') = ''slow down''"
    by (simp add: errorMessage_of_def demo_defs)
  have n: "show_int (maxAttempts (demo_ctx ''posts'')) = ''3''" "maxAttempts (demo_ctx ''posts'') \<noteq> 1"
    by (simp_all add: demo_ctx_def configuredRetries_def demo_client_def no_options_def show_int_def
        show_nat.simps digit_char_def)
  from rate_limit_response_stops_retries[OF h1 h2 h3 h4 h5, of "PlainError ''Error'' ''Unknown error''" demo_client]
  obtain c' w' where *: "?loop = (Inl (Err (WordPressAPIError
                  (''Request failed after '' @ show_int (maxAttempts (demo_ctx ''posts'')) @ '' attempt''
                   @ (if maxAttempts (demo_ctx ''posts'') = 1 then [] else ''s'') @ '': ''
                   @ to_str (errorMessage_of ?e ?r ''slow down'')) None)), c', w')"
    "rateLimitHits (stats c') = rateLimitHits (stats demo_client) + 1"
    "served w' = Suc (served demo_world)" "attempts_of (new_events demo_world w') = [0]"
    by blast
  have "fst ?loop = Inl (Err (WordPressAPIError ''Request failed after 3 attempts: slow down'' None))"
    unfolding *(1) m n by (simp add: n)
  moreover have "rateLimitHits (stats (fst (snd ?loop))) = 1"
    unfolding *(1) using *(2) by (simp add: demo_client_def fresh_stats_def)
  moreover have "served (snd (snd ?loop)) = 1"
    unfolding *(1) using *(3) by (simp add: demo_world_def)
  moreover have "attempts_of (new_events demo_world (snd (snd ?loop))) = [0]"
    unfolding *(1) using *(4) by simp
  ultimately show ?thesis using h1 h2 h3 by blast
qed






end
